theory Spec2Isabelle
  imports Main "HOL-Library.Word" "HOL-Library.Sublist" "HOL-Library.Multiset"
begin

section \<open>Python values and string formatting\<close>

text \<open>
  The nat method of sshuttle (\<^verbatim>\<open>src/sshuttle/methods/nat.py\<close>) builds
  argument vectors for the packet-filter command out of integers and strings with
  \<^verbatim>\<open>str(x)\<close>, \<^verbatim>\<open>'%s' % x\<close> and \<^verbatim>\<open>'%d:%d' % (a, b)\<close>.
  Python integers are unbounded, so they are \<^typ>\<open>int\<close>; \<^verbatim>\<open>str\<close> of an
  integer is its decimal numeral, with a leading minus sign below zero.
\<close>

definition digit_char :: "nat \<Rightarrow> char" where
  "digit_char d = ''0123456789'' ! d"

fun str_nat :: "nat \<Rightarrow> string" where
  "str_nat n = (if n < 10 then [digit_char n] else str_nat (n div 10) @ [digit_char (n mod 10)])"

declare str_nat.simps [simp del]

definition str_int :: "int \<Rightarrow> string" where
  "str_int i = (if i < 0 then CHR ''-'' # str_nat (nat (- i)) else str_nat (nat i))"

text \<open>
  The \<^verbatim>\<open>user\<close> argument is \<^verbatim>\<open>None\<close> or an operating-system user, given
  by number or by name; the code only ever applies \<^verbatim>\<open>str\<close> to it.
\<close>

datatype user_id = Uid int | Uname string

fun str_user :: "user_id \<Rightarrow> string" where
  "str_user (Uid i) = str_int i"
| "str_user (Uname s) = s"

text \<open>\<^verbatim>\<open>socket.AF_INET\<close>, the one address family the method accepts.\<close>

definition AF_INET :: int where
  "AF_INET = 2"

text \<open>
  A subnet entry is the tuple the loop of \<^verbatim>\<open>setup_firewall\<close> unpacks:
  \<^verbatim>\<open>(family, swidth, sexclude, snet, fport, lport)\<close>.
\<close>

type_synonym subnet = "int \<times> int \<times> bool \<times> string \<times> int \<times> int"

type_synonym bytes = "8 word list"

text \<open>
  \<^verbatim>\<open>str(msg, "utf-8")\<close> decodes strictly: it raises on a byte sequence that is
  not well-formed UTF-8 (no overlong forms, no surrogates, nothing above U+10FFFF).
\<close>

definition utf8_cont :: "8 word \<Rightarrow> bool" where
  "utf8_cont b = (0x80 \<le> b \<and> b \<le> 0xBF)"

fun utf8_valid :: "bytes \<Rightarrow> bool" where
  "utf8_valid [] = True"
| "utf8_valid (b # bs) =
     (if b \<le> 0x7F then utf8_valid bs
      else if 0xC2 \<le> b \<and> b \<le> 0xDF then
        (case bs of
           b1 # r \<Rightarrow> utf8_cont b1 \<and> utf8_valid r
         | _ \<Rightarrow> False)
      else if 0xE0 \<le> b \<and> b \<le> 0xEF then
        (case bs of
           b1 # b2 # r \<Rightarrow>
             (if b = 0xE0 then 0xA0 \<le> b1 \<and> b1 \<le> 0xBF
              else if b = 0xED then 0x80 \<le> b1 \<and> b1 \<le> 0x9F
              else utf8_cont b1)
             \<and> utf8_cont b2 \<and> utf8_valid r
         | _ \<Rightarrow> False)
      else if 0xF0 \<le> b \<and> b \<le> 0xF4 then
        (case bs of
           b1 # b2 # b3 # r \<Rightarrow>
             (if b = 0xF0 then 0x90 \<le> b1 \<and> b1 \<le> 0xBF
              else if b = 0xF4 then 0x80 \<le> b1 \<and> b1 \<le> 0x8F
              else utf8_cont b1)
             \<and> utf8_cont b2 \<and> utf8_cont b3 \<and> utf8_valid r
         | _ \<Rightarrow> False)
      else False)"

text \<open>
  \<^verbatim>\<open>sorted(xs, key=k, reverse=True)\<close>: a stable sort in descending key order;
  Python reverses the list, sorts it stably in ascending order and reverses the result,
  so entries with equal keys keep their original order.
\<close>

definition sorted_reverse :: "('a \<Rightarrow> 'k::linorder) \<Rightarrow> 'a list \<Rightarrow> 'a list" where
  "sorted_reverse k xs = rev (sort_key k (rev xs))"

section \<open>The outside world: external calls, their outcomes, and a log\<close>

text \<open>
  Every effect of the method is an external call. A call is one of the four functions the
  module imports and invokes: \<^verbatim>\<open>ipt(family, table, *args)\<close>,
  \<^verbatim>\<open>ipt_ttl(family, table, *args)\<close>,
  \<^verbatim>\<open>ipt_chain_exists(family, table, chain)\<close> and
  \<^verbatim>\<open>check_output(argv, stderr=STDOUT)\<close>.
\<close>

datatype call =
    Ipt int string "string list"
  | Ipt_ttl int string "string list"
  | Ipt_chain_exists int string string
  | Check_output "string list"

text \<open>
  What \<^verbatim>\<open>subprocess.check_output\<close> can do: return the captured output (exit
  status 0), raise \<^verbatim>\<open>CalledProcessError\<close> with the exit status and the output
  (non-zero exit status), or raise \<^verbatim>\<open>OSError\<close> because the program could not be
  run at all (for instance \<^verbatim>\<open>FileNotFoundError\<close>: no such executable).
\<close>

datatype process_result =
    Returned bytes
  | Exited_nonzero int bytes
  | Not_run

text \<open>
  The exceptions that can leave the method. \<^verbatim>\<open>Unsupported_family f\<close> is
  \<^verbatim>\<open>Exception('Address family "%s" unsupported by nat method_name' % family_to_string(family))\<close>;
  \<^verbatim>\<open>sshuttle.helpers.family_to_string\<close> is not among the sources, so the error
  carries the family itself instead of its name. \<^verbatim>\<open>Unsupported_udp\<close> is
  \<^verbatim>\<open>Exception("UDP not supported by nat method_name")\<close>, \<^verbatim>\<open>Fatal c\<close> is the
  failure of the packet-filter command \<^verbatim>\<open>c\<close>, and the last three are the
  exceptions of \<^verbatim>\<open>check_output\<close> and of decoding its output.
\<close>

datatype error =
    Unsupported_family int
  | Unsupported_udp
  | Fatal call
  | CalledProcessError int bytes
  | OSError
  | UnicodeDecodeError

text \<open>
  The host behind the calls is a parameter: a state of any type \<^typ>\<open>'h\<close> and, for each
  kind of call, what the host answers and how its state changes. The chain query only
  reads the state.
\<close>

record 'h backend =
  run_ipt :: "int \<Rightarrow> string \<Rightarrow> string list \<Rightarrow> 'h \<Rightarrow> bool \<times> 'h"
  run_ipt_ttl :: "int \<Rightarrow> string \<Rightarrow> string list \<Rightarrow> 'h \<Rightarrow> bool \<times> 'h"
  query_chain :: "int \<Rightarrow> string \<Rightarrow> string \<Rightarrow> 'h \<Rightarrow> bool"
  run_process :: "string list \<Rightarrow> 'h \<Rightarrow> process_result \<times> 'h"

text \<open>
  The world a run threads through: the host's state and the log of every external call
  issued so far, oldest first, each with its outcome (\<^term>\<open>True\<close>: the command
  succeeded, the chain exists, the process exited with status 0).
\<close>

record 'h world =
  host :: 'h
  issued :: "(call \<times> bool) list"

type_synonym ('h, 'a) prog = "'h world \<Rightarrow> (error + 'a) \<times> 'h world"

definition preturn :: "'a \<Rightarrow> ('h, 'a) prog" where
  "preturn x w = (Inr x, w)"

definition praise :: "error \<Rightarrow> ('h, 'a) prog" where
  "praise e w = (Inl e, w)"

definition pbind :: "('h, 'a) prog \<Rightarrow> ('a \<Rightarrow> ('h, 'b) prog) \<Rightarrow> ('h, 'b) prog" where
  "pbind p f w = (case p w of (Inl e, w') \<Rightarrow> (Inl e, w') | (Inr x, w') \<Rightarrow> f x w')"

definition pseq :: "('h, 'a) prog \<Rightarrow> ('h, 'b) prog \<Rightarrow> ('h, 'b) prog" where
  "pseq p q = pbind p (\<lambda>_. q)"

text \<open>\<^verbatim>\<open>try: ... except E: ...\<close>: the handler decides which exceptions it takes.\<close>

definition try_except :: "('h, 'a) prog \<Rightarrow> (error \<Rightarrow> ('h, 'a) prog) \<Rightarrow> ('h, 'a) prog" where
  "try_except p handler w = (case p w of (Inl e, w') \<Rightarrow> handler e w' | (Inr x, w') \<Rightarrow> (Inr x, w'))"

text \<open>\<^verbatim>\<open>for x in xs: body\<close>, stopping at the first exception.\<close>

primrec for_each :: "'a list \<Rightarrow> ('a \<Rightarrow> ('h, unit) prog) \<Rightarrow> ('h, unit) prog" where
  "for_each [] body = preturn ()"
| "for_each (x # xs) body = pseq (body x) (for_each xs body)"

subsection \<open>The imported helpers\<close>

text \<open>
  Modelled from the spec: \<^verbatim>\<open>sshuttle.linux.ipt\<close> is not among the sources. The
  spec's backend command executor takes a table name and a rule-specification argument
  list and returns success or failure; a failed required command is the fatal error
  \<^verbatim>\<open>BackendCommandFailed\<close>. The call and its outcome are logged.
\<close>

definition ipt :: "'h backend \<Rightarrow> int \<Rightarrow> string \<Rightarrow> string list \<Rightarrow> ('h, unit) prog" where
  "ipt B family table args w =
     (case run_ipt B family table args (host w) of
        (ok, h') \<Rightarrow>
          (if ok then Inr () else Inl (Fatal (Ipt family table args)),
           w\<lparr>host := h', issued := issued w @ [(Ipt family table args, ok)]\<rparr>))"

text \<open>
  Modelled from the spec: \<^verbatim>\<open>sshuttle.linux.ipt_ttl\<close> is not among the sources. It
  is the executor's TTL-exemption variant: the same interface, a call of its own kind.
\<close>

definition ipt_ttl :: "'h backend \<Rightarrow> int \<Rightarrow> string \<Rightarrow> string list \<Rightarrow> ('h, unit) prog" where
  "ipt_ttl B family table args w =
     (case run_ipt_ttl B family table args (host w) of
        (ok, h') \<Rightarrow>
          (if ok then Inr () else Inl (Fatal (Ipt_ttl family table args)),
           w\<lparr>host := h', issued := issued w @ [(Ipt_ttl family table args, ok)]\<rparr>))"

text \<open>
  Modelled from the spec: \<^verbatim>\<open>sshuttle.linux.ipt_chain_exists\<close> is not among the
  sources. The spec's chain-existence query: given family, table and chain name, a boolean.
\<close>

definition ipt_chain_exists :: "'h backend \<Rightarrow> int \<Rightarrow> string \<Rightarrow> string \<Rightarrow> ('h, bool) prog" where
  "ipt_chain_exists B family table chain w =
     (let ex = query_chain B family table chain (host w)
      in (Inr ex, w\<lparr>issued := issued w @ [(Ipt_chain_exists family table chain, ex)]\<rparr>))"

text \<open>
  Modelled from the spec: \<^verbatim>\<open>sshuttle.linux.nonfatal\<close> is not among the sources.
  \<^verbatim>\<open>nonfatal(func, *args)\<close> attempts the command; the command's failure (the
  \<^verbatim>\<open>Fatal\<close> error of the executor) is non-fatal: logged and ignored.
\<close>

definition nonfatal :: "('h, unit) prog \<Rightarrow> ('h, unit) prog" where
  "nonfatal p = try_except p (\<lambda>e. case e of Fatal c \<Rightarrow> preturn () | _ \<Rightarrow> praise e)"

text \<open>\<^verbatim>\<open>subprocess.check_output(argv, stderr=STDOUT)\<close>.\<close>

definition check_output :: "'h backend \<Rightarrow> string list \<Rightarrow> ('h, bytes) prog" where
  "check_output B argv w =
     (case run_process B argv (host w) of
        (Returned out, h') \<Rightarrow>
          (Inr out, w\<lparr>host := h', issued := issued w @ [(Check_output argv, True)]\<rparr>)
      | (Exited_nonzero rc out, h') \<Rightarrow>
          (Inl (CalledProcessError rc out),
           w\<lparr>host := h', issued := issued w @ [(Check_output argv, False)]\<rparr>)
      | (Not_run, h') \<Rightarrow>
          (Inl OSError, w\<lparr>host := h', issued := issued w @ [(Check_output argv, False)]\<rparr>))"

text \<open>\<^verbatim>\<open>str(msg, "utf-8")\<close>; the text is kept as its bytes.\<close>

definition str_utf8 :: "bytes \<Rightarrow> ('h, bytes) prog" where
  "str_utf8 msg = (if utf8_valid msg then preturn msg else praise UnicodeDecodeError)"

text \<open>
  Modelled from the spec: \<^verbatim>\<open>sshuttle.helpers.debug2\<close> is not among the sources.
  Logging and debug output are outside the specified system: the call has no effect on
  the world modelled here.
\<close>

definition debug2 :: "bytes \<Rightarrow> ('h, unit) prog" where
  "debug2 s = preturn ()"

section \<open>The nat method\<close>

text \<open>\<^verbatim>\<open>Method.restore_firewall(self, port, family, udp, user)\<close>, lines 119 to 152.\<close>

definition restore_firewall ::
  "'h backend \<Rightarrow> int \<Rightarrow> int \<Rightarrow> bool \<Rightarrow> user_id option \<Rightarrow> ('h, unit) prog" where
  "restore_firewall B port family udp user =
     (if family \<noteq> AF_INET then praise (Unsupported_family family)
      else if udp then praise Unsupported_udp
      else
        let table = ''nat'';
            chain = ''sshuttle-'' @ str_int port
        in
        pbind (ipt_chain_exists B family table chain) (\<lambda>ex.
          if ex then
            pbind
              (case user of
                 Some u \<Rightarrow>
                   pseq (nonfatal (ipt B family ''mangle''
                           [''-D'', ''OUTPUT'', ''-m'', ''owner'', ''--uid-owner'',
                            str_user u, ''-j'', ''MARK'', ''--set-mark'', str_int port]))
                        (preturn [''-m'', ''mark'', ''--mark'', str_int port, ''-j'', chain])
               | None \<Rightarrow> preturn [''-j'', chain])
              (\<lambda>args.
                pseq (nonfatal (ipt B family table ([''-D'', ''OUTPUT''] @ args)))
               (pseq (nonfatal (ipt B family table ([''-D'', ''PREROUTING''] @ args)))
               (pseq (nonfatal (ipt B family table [''-F'', chain]))
                     (ipt B family table [''-X'', chain]))))
          else preturn ()))"

text \<open>
  Lines 108 to 117 of \<^verbatim>\<open>setup_firewall\<close>: the connection-tracking flush. Only
  \<^verbatim>\<open>CalledProcessError\<close> is caught; its output becomes the message.
\<close>

definition flush_conntrack :: "'h backend \<Rightarrow> ('h, unit) prog" where
  "flush_conntrack B =
     pbind
       (try_except (check_output B [''conntrack'', ''-D'', ''--dst'', ''224.0.0.252''])
          (\<lambda>e. case e of CalledProcessError rc out \<Rightarrow> preturn out | _ \<Rightarrow> praise e))
       (\<lambda>msg. pbind (str_utf8 msg) debug2)"

text \<open>
  \<^verbatim>\<open>Method.setup_firewall(self, port, dnsport, nslist, family, subnets, udp, user)\<close>,
  lines 17 to 117. \<^verbatim>\<open>sshuttle.firewall.subnet_weight\<close>, the sort key of the subnet
  loop, is not among the sources: it is the parameter \<^verbatim>\<open>subnet_weight\<close>, a function
  from subnet entries into any linear order.
\<close>

definition setup_firewall ::
  "'h backend \<Rightarrow> (subnet \<Rightarrow> 'k::linorder) \<Rightarrow> int \<Rightarrow> int \<Rightarrow> (int \<times> string) list \<Rightarrow> int \<Rightarrow>
   subnet list \<Rightarrow> bool \<Rightarrow> user_id option \<Rightarrow> ('h, unit) prog" where
  "setup_firewall B subnet_weight port dnsport nslist family subnets udp user =
     (if family \<noteq> AF_INET then praise (Unsupported_family family)
      else if udp then praise Unsupported_udp
      else
        let table = ''nat'';
            chain = ''sshuttle-'' @ str_int port
        in
        pseq (restore_firewall B port family udp user)
       (pseq (ipt B family table [''-N'', chain])
       (pseq (ipt B family table [''-F'', chain])
       (pbind
          (case user of
             Some u \<Rightarrow>
               pseq (ipt B family ''mangle''
                       [''-I'', ''OUTPUT'', ''1'', ''-m'', ''owner'', ''--uid-owner'',
                        str_user u, ''-j'', ''MARK'', ''--set-mark'', str_int port])
                    (preturn [''-m'', ''mark'', ''--mark'', str_int port, ''-j'', chain])
           | None \<Rightarrow> preturn [''-j'', chain])
          (\<lambda>args.
            pseq (ipt B family table ([''-I'', ''OUTPUT'', ''1''] @ args))
           (pseq (ipt B family table ([''-I'', ''PREROUTING'', ''1''] @ args))
           (pseq (ipt_ttl B family table
                    [''-A'', chain, ''-j'', ''RETURN'', ''-m'', ''ttl'', ''--ttl'', ''63''])
           (pseq (for_each (filter (\<lambda>i. fst i = family) nslist)
                    (\<lambda>(_, ip).
                       ipt B family table
                         [''-A'', chain, ''-j'', ''REDIRECT'',
                          ''--dest'', ip @ ''/32'',
                          ''-p'', ''udp'',
                          ''--dport'', ''53'',
                          ''--to-ports'', str_int dnsport]))
           (pseq (ipt B family table
                    [''-A'', chain, ''-j'', ''RETURN'',
                     ''-m'', ''addrtype'',
                     ''--dst-type'', ''LOCAL''])
           (pseq (for_each (sorted_reverse subnet_weight subnets)
                    (\<lambda>(_, swidth, sexclude, snet, fport, lport).
                       let tcp_ports = [''-p'', ''tcp''];
                           tcp_ports =
                             (if fport \<noteq> 0
                              then tcp_ports @ [''--dport'', str_int fport @ '':'' @ str_int lport]
                              else tcp_ports)
                       in
                       if sexclude then
                         ipt B family table
                           ([''-A'', chain, ''-j'', ''RETURN'',
                             ''--dest'', snet @ ''/'' @ str_int swidth] @ tcp_ports)
                       else
                         ipt B family table
                           ([''-A'', chain, ''-j'', ''REDIRECT'',
                             ''--dest'', snet @ ''/'' @ str_int swidth]
                            @ (tcp_ports @ [''--to-ports'', str_int port]))))
           (pseq (ipt_ttl B family table
                    [''-A'', chain, ''-j'', ''REDIRECT'',
                     ''--dest'', ''224.0.0.252/32'',
                     ''-p'', ''udp'',
                     ''--dport'', ''5355'',
                     ''--to-ports'', str_int dnsport])
                 (flush_conntrack B))))))))))))"

section \<open>The compiled rule set, as the specification describes it\<close>

text \<open>
  The chain of an instance is named \<^verbatim>\<open>"sshuttle-" + port\<close>.
\<close>

definition chain_name :: "int \<Rightarrow> string" where
  "chain_name port = ''sshuttle-'' @ str_int port"

text \<open>
  The Mark rule tags the packets a user owns with \<^verbatim>\<open>port\<close>; the entry rules jump
  to the chain, for marked packets when a user is set and for all packets otherwise.
\<close>

definition mark_spec :: "int \<Rightarrow> user_id \<Rightarrow> string list" where
  "mark_spec port u =
     [''-m'', ''owner'', ''--uid-owner'', str_user u, ''-j'', ''MARK'', ''--set-mark'', str_int port]"

definition entry_spec :: "int \<Rightarrow> user_id option \<Rightarrow> string list" where
  "entry_spec port user =
     (case user of
        Some u \<Rightarrow> [''-m'', ''mark'', ''--mark'', str_int port, ''-j'', chain_name port]
      | None \<Rightarrow> [''-j'', chain_name port])"

text \<open>Step 5: return for packets whose time-to-live is 63, through the TTL variant.\<close>

definition ttl_rule :: "int \<Rightarrow> int \<Rightarrow> call" where
  "ttl_rule family port =
     Ipt_ttl family ''nat''
       [''-A'', chain_name port, ''-j'', ''RETURN'', ''-m'', ''ttl'', ''--ttl'', ''63'']"

text \<open>Step 6: UDP port 53 to exactly one nameserver address goes to \<^verbatim>\<open>dnsPort\<close>.\<close>

definition dns_rule :: "int \<Rightarrow> int \<Rightarrow> int \<Rightarrow> int \<times> string \<Rightarrow> call" where
  "dns_rule family port dnsport ns =
     Ipt family ''nat''
       [''-A'', chain_name port, ''-j'', ''REDIRECT'', ''--dest'', snd ns @ ''/32'',
        ''-p'', ''udp'', ''--dport'', ''53'', ''--to-ports'', str_int dnsport]"

text \<open>Step 7: return for destinations of local address type.\<close>

definition local_rule :: "int \<Rightarrow> int \<Rightarrow> call" where
  "local_rule family port =
     Ipt family ''nat''
       [''-A'', chain_name port, ''-j'', ''RETURN'', ''-m'', ''addrtype'', ''--dst-type'', ''LOCAL'']"

text \<open>
  Step 8: the port-range filter of a subnet entry (present only for a nonzero first
  port), and the entry's rule: a return rule for an exclusion, a redirect to
  \<^verbatim>\<open>port\<close> otherwise, both for TCP traffic to the entry's network and width.
\<close>

definition port_range :: "subnet \<Rightarrow> string list" where
  "port_range s =
     (case s of (_, swidth, sexclude, snet, fport, lport) \<Rightarrow>
        if fport = 0 then [] else [''--dport'', str_int fport @ '':'' @ str_int lport])"

definition subnet_rule :: "int \<Rightarrow> int \<Rightarrow> subnet \<Rightarrow> call" where
  "subnet_rule family port s =
     (case s of (_, swidth, sexclude, snet, fport, lport) \<Rightarrow>
        if sexclude then
          Ipt family ''nat''
            ([''-A'', chain_name port, ''-j'', ''RETURN'',
              ''--dest'', snet @ ''/'' @ str_int swidth, ''-p'', ''tcp''] @ port_range s)
        else
          Ipt family ''nat''
            ([''-A'', chain_name port, ''-j'', ''REDIRECT'',
              ''--dest'', snet @ ''/'' @ str_int swidth, ''-p'', ''tcp''] @ port_range s
             @ [''--to-ports'', str_int port]))"

text \<open>Step 9: UDP to 224.0.0.252 port 5355 goes to \<^verbatim>\<open>dnsPort\<close>, through the TTL variant.\<close>

definition llmnr_rule :: "int \<Rightarrow> int \<Rightarrow> int \<Rightarrow> call" where
  "llmnr_rule family port dnsport =
     Ipt_ttl family ''nat''
       [''-A'', chain_name port, ''-j'', ''REDIRECT'', ''--dest'', ''224.0.0.252/32'',
        ''-p'', ''udp'', ''--dport'', ''5355'', ''--to-ports'', str_int dnsport]"

text \<open>The body of the chain, steps 5 to 9 in order.\<close>

definition chain_rules ::
  "(subnet \<Rightarrow> 'k::linorder) \<Rightarrow> int \<Rightarrow> int \<Rightarrow> (int \<times> string) list \<Rightarrow> int \<Rightarrow> subnet list \<Rightarrow> call list" where
  "chain_rules weight port dnsport nslist family subnets =
     [ttl_rule family port]
     @ map (dns_rule family port dnsport) (filter (\<lambda>ns. fst ns = family) nslist)
     @ [local_rule family port]
     @ map (subnet_rule family port) (sorted_reverse weight subnets)
     @ [llmnr_rule family port dnsport]"

text \<open>Steps 2 to 9: every required packet-filter command of a setup, in order.\<close>

definition install_calls ::
  "(subnet \<Rightarrow> 'k::linorder) \<Rightarrow> int \<Rightarrow> int \<Rightarrow> (int \<times> string) list \<Rightarrow> int \<Rightarrow> subnet list \<Rightarrow>
   user_id option \<Rightarrow> call list" where
  "install_calls weight port dnsport nslist family subnets user =
     [Ipt family ''nat'' [''-N'', chain_name port],
      Ipt family ''nat'' [''-F'', chain_name port]]
     @ (case user of
          Some u \<Rightarrow> [Ipt family ''mangle'' ([''-I'', ''OUTPUT'', ''1''] @ mark_spec port u)]
        | None \<Rightarrow> [])
     @ [Ipt family ''nat'' ([''-I'', ''OUTPUT'', ''1''] @ entry_spec port user),
        Ipt family ''nat'' ([''-I'', ''PREROUTING'', ''1''] @ entry_spec port user)]
     @ chain_rules weight port dnsport nslist family subnets"

text \<open>The best-effort removals of a teardown, and the deletion of the chain.\<close>

definition teardown_removals :: "int \<Rightarrow> int \<Rightarrow> user_id option \<Rightarrow> call list" where
  "teardown_removals port family user =
     (case user of
        Some u \<Rightarrow> [Ipt family ''mangle'' ([''-D'', ''OUTPUT''] @ mark_spec port u)]
      | None \<Rightarrow> [])
     @ [Ipt family ''nat'' ([''-D'', ''OUTPUT''] @ entry_spec port user),
        Ipt family ''nat'' ([''-D'', ''PREROUTING''] @ entry_spec port user),
        Ipt family ''nat'' [''-F'', chain_name port]]"

definition delete_chain :: "int \<Rightarrow> int \<Rightarrow> call" where
  "delete_chain port family = Ipt family ''nat'' [''-X'', chain_name port]"

definition conntrack_call :: call where
  "conntrack_call = Check_output [''conntrack'', ''-D'', ''--dst'', ''224.0.0.252'']"

text \<open>
  The calls a teardown makes when every one of them goes through, and likewise a setup;
  \<^term>\<open>ex\<close> is the answer to the chain query.
\<close>

definition teardown_calls :: "bool \<Rightarrow> int \<Rightarrow> int \<Rightarrow> user_id option \<Rightarrow> call list" where
  "teardown_calls ex port family user =
     Ipt_chain_exists family ''nat'' (chain_name port)
     # (if ex then teardown_removals port family user @ [delete_chain port family] else [])"

definition setup_calls ::
  "bool \<Rightarrow> (subnet \<Rightarrow> 'k::linorder) \<Rightarrow> int \<Rightarrow> int \<Rightarrow> (int \<times> string) list \<Rightarrow> int \<Rightarrow> subnet list \<Rightarrow>
   user_id option \<Rightarrow> call list" where
  "setup_calls ex weight port dnsport nslist family subnets user =
     teardown_calls ex port family user
     @ install_calls weight port dnsport nslist family subnets user
     @ [conntrack_call]"

section \<open>Observing a run\<close>

text \<open>The events a run adds to the log, and the calls among them.\<close>

definition new_events :: "('h, 'a) prog \<Rightarrow> 'h world \<Rightarrow> (call \<times> bool) list" where
  "new_events p w = drop (length (issued w)) (issued (snd (p w)))"

definition calls_issued :: "('h, 'a) prog \<Rightarrow> 'h world \<Rightarrow> call list" where
  "calls_issued p w = map fst (new_events p w)"

text \<open>Running a list of packet-filter commands: all required, or all best-effort.\<close>

definition exec_call :: "'h backend \<Rightarrow> call \<Rightarrow> ('h, unit) prog" where
  "exec_call B c =
     (case c of
        Ipt family table args \<Rightarrow> ipt B family table args
      | Ipt_ttl family table args \<Rightarrow> ipt_ttl B family table args
      | _ \<Rightarrow> preturn ())"

primrec run_calls :: "'h backend \<Rightarrow> call list \<Rightarrow> ('h, unit) prog" where
  "run_calls B [] = preturn ()"
| "run_calls B (c # cs) = pseq (exec_call B c) (run_calls B cs)"

primrec run_nonfatal :: "'h backend \<Rightarrow> call list \<Rightarrow> ('h, unit) prog" where
  "run_nonfatal B [] = preturn ()"
| "run_nonfatal B (c # cs) = pseq (nonfatal (exec_call B c)) (run_nonfatal B cs)"

fun is_command :: "call \<Rightarrow> bool" where
  "is_command (Ipt family table args) = True"
| "is_command (Ipt_ttl family table args) = True"
| "is_command _ = False"

section \<open>Hosts to run against\<close>

text \<open>
  A scripted host: its state is the list of outcomes still to be given to packet-filter
  commands (a command succeeds once the script has run out); the chain query and the
  connection-tracking command always answer the same.
\<close>

definition scripted :: "bool \<Rightarrow> process_result \<Rightarrow> (bool list) backend" where
  "scripted ex pr =
     \<lparr>run_ipt = (\<lambda>family table args h. case h of [] \<Rightarrow> (True, []) | b # bs \<Rightarrow> (b, bs)),
      run_ipt_ttl = (\<lambda>family table args h. case h of [] \<Rightarrow> (True, []) | b # bs \<Rightarrow> (b, bs)),
      query_chain = (\<lambda>family table chain h. ex),
      run_process = (\<lambda>argv h. (pr, h))\<rparr>"

definition start :: "'h \<Rightarrow> 'h world" where
  "start h = \<lparr>host = h, issued = []\<rparr>"

text \<open>
  A run follows a plan \<^term>\<open>cs\<close> when it only adds to the log, the calls it adds are
  an initial segment of the plan, and all of the plan when the run returns normally.
\<close>

definition traces :: "('h, 'a) prog \<Rightarrow> 'h world \<Rightarrow> call list \<Rightarrow> bool" where
  "traces p w cs =
     (\<exists>es. issued (snd (p w)) = issued w @ es \<and> prefix (map fst es) cs
        \<and> ((\<exists>x. fst (p w) = Inr x) \<longrightarrow> map fst es = cs))"

subsection \<open>Recognising commands in the log\<close>

text \<open>An append to a given chain; a rule for TCP traffic; a rule for UDP port 53.\<close>

fun appends_to :: "string \<Rightarrow> call \<Rightarrow> bool" where
  "appends_to chain (Ipt family table args) = (take 2 args = [''-A'', chain])"
| "appends_to chain (Ipt_ttl family table args) = (take 2 args = [''-A'', chain])"
| "appends_to chain (Ipt_chain_exists family table c) = False"
| "appends_to chain (Check_output argv) = False"

fun is_tcp_rule :: "call \<Rightarrow> bool" where
  "is_tcp_rule (Ipt family table args) = (take 2 (drop 6 args) = [''-p'', ''tcp''])"
| "is_tcp_rule (Ipt_ttl family table args) = False"
| "is_tcp_rule (Ipt_chain_exists family table c) = False"
| "is_tcp_rule (Check_output argv) = False"

fun is_dns_rule :: "call \<Rightarrow> bool" where
  "is_dns_rule (Ipt family table args) =
     (take 4 (drop 6 args) = [''-p'', ''udp'', ''--dport'', ''53''])"
| "is_dns_rule (Ipt_ttl family table args) = False"
| "is_dns_rule (Ipt_chain_exists family table c) = False"
| "is_dns_rule (Check_output argv) = False"

text \<open>
  Inserts and deletes, the table a command works on, and the delete command that
  corresponds to an insert: the flag replaced, the position argument dropped.
\<close>

fun is_insert :: "call \<Rightarrow> bool" where
  "is_insert (Ipt family table args) = (take 1 args = [''-I''])"
| "is_insert (Ipt_ttl family table args) = False"
| "is_insert (Ipt_chain_exists family table c) = False"
| "is_insert (Check_output argv) = False"

fun is_delete :: "call \<Rightarrow> bool" where
  "is_delete (Ipt family table args) = (take 1 args = [''-D''])"
| "is_delete (Ipt_ttl family table args) = False"
| "is_delete (Ipt_chain_exists family table c) = False"
| "is_delete (Check_output argv) = False"

fun in_table :: "string \<Rightarrow> call \<Rightarrow> bool" where
  "in_table t (Ipt family table args) = (table = t)"
| "in_table t (Ipt_ttl family table args) = (table = t)"
| "in_table t (Ipt_chain_exists family table c) = False"
| "in_table t (Check_output argv) = False"

fun as_delete :: "call \<Rightarrow> call" where
  "as_delete (Ipt family table (flag # chain # pos # spec)) = Ipt family table (''-D'' # chain # spec)"
| "as_delete c = c"

text \<open>A rule specification whose action is a jump to the given chain.\<close>

definition jumps_to :: "string \<Rightarrow> string list \<Rightarrow> bool" where
  "jumps_to chain spec = (drop (length spec - 2) spec = [''-j'', chain])"

text \<open>
  The commands of a setup as the ninth claim lists them: in the nat table a create, flush
  or append on the instance's chain, or an insert at position 1 of
  \<^verbatim>\<open>OUTPUT\<close>/\<^verbatim>\<open>PREROUTING\<close> of a jump to it; outside the nat table only the
  insert of the Mark rule in the mangle table, when a user is set. The chain query and
  the connection-tracking command are no packet-filter commands and pass.
\<close>

fun namespaced_as_stated :: "int \<Rightarrow> user_id option \<Rightarrow> call \<Rightarrow> bool" where
  "namespaced_as_stated port user (Ipt family table args) =
     (if table = ''nat'' then
        take 2 args = [''-N'', chain_name port] \<or> take 2 args = [''-F'', chain_name port]
        \<or> take 2 args = [''-A'', chain_name port]
        \<or> ((take 3 args = [''-I'', ''OUTPUT'', ''1''] \<or> take 3 args = [''-I'', ''PREROUTING'', ''1''])
            \<and> jumps_to (chain_name port) args)
      else
        (case user of
           Some u \<Rightarrow> table = ''mangle'' \<and> args = [''-I'', ''OUTPUT'', ''1''] @ mark_spec port u
         | None \<Rightarrow> False))"
| "namespaced_as_stated port user (Ipt_ttl family table args) =
     (table = ''nat'' \<and> take 2 args = [''-A'', chain_name port])"
| "namespaced_as_stated port user (Ipt_chain_exists family table c) = True"
| "namespaced_as_stated port user (Check_output argv) = True"

text \<open>
  The same with the commands of the teardown that a setup starts with: the deletion of
  the chain, the deletes of its entry rules from \<^verbatim>\<open>OUTPUT\<close>/\<^verbatim>\<open>PREROUTING\<close>,
  and the delete of the Mark rule.
\<close>

fun namespaced :: "int \<Rightarrow> user_id option \<Rightarrow> call \<Rightarrow> bool" where
  "namespaced port user (Ipt family table args) =
     (if table = ''nat'' then
        take 2 args = [''-N'', chain_name port] \<or> take 2 args = [''-F'', chain_name port]
        \<or> take 2 args = [''-A'', chain_name port] \<or> take 2 args = [''-X'', chain_name port]
        \<or> ((take 3 args = [''-I'', ''OUTPUT'', ''1''] \<or> take 3 args = [''-I'', ''PREROUTING'', ''1'']
             \<or> take 2 args = [''-D'', ''OUTPUT''] \<or> take 2 args = [''-D'', ''PREROUTING''])
            \<and> jumps_to (chain_name port) args)
      else
        (case user of
           Some u \<Rightarrow>
             table = ''mangle''
             \<and> (args = [''-I'', ''OUTPUT'', ''1''] @ mark_spec port u
                \<or> args = [''-D'', ''OUTPUT''] @ mark_spec port u)
         | None \<Rightarrow> False))"
| "namespaced port user (Ipt_ttl family table args) =
     (table = ''nat'' \<and> take 2 args = [''-A'', chain_name port])"
| "namespaced port user (Ipt_chain_exists family table c) =
     (table = ''nat'' \<and> c = chain_name port)"
| "namespaced port user (Check_output argv) =
     (argv = [''conntrack'', ''-D'', ''--dst'', ''224.0.0.252''])"

text \<open>
  The chain a command creates, flushes, appends to or deletes, with its table; the
  built-in lists \<^verbatim>\<open>OUTPUT\<close> and \<^verbatim>\<open>PREROUTING\<close> are touched by inserts and
  deletes only, which are not counted here.
\<close>

definition chain_op :: "string list \<Rightarrow> bool" where
  "chain_op args =
     (take 1 args = [''-N''] \<or> take 1 args = [''-F''] \<or> take 1 args = [''-A'']
      \<or> take 1 args = [''-X''])"

fun touched_chain :: "call \<Rightarrow> (string \<times> string) option" where
  "touched_chain (Ipt family table args) =
     (if chain_op args \<and> 2 \<le> length args then Some (table, args ! 1) else None)"
| "touched_chain (Ipt_ttl family table args) =
     (if chain_op args \<and> 2 \<le> length args then Some (table, args ! 1) else None)"
| "touched_chain (Ipt_chain_exists family table c) = None"
| "touched_chain (Check_output argv) = None"

subsection \<open>Hosts whose connection-tracking command fails softly\<close>

text \<open>
  The connection-tracking command exits, with status zero or not, and its output is
  text; and the host that differs only in that the command always exits with status 0
  and no output.
\<close>

definition conntrack_exits :: "'h backend \<Rightarrow> bool" where
  "conntrack_exits B =
     (\<forall>h. case fst (run_process B [''conntrack'', ''-D'', ''--dst'', ''224.0.0.252''] h) of
            Returned out \<Rightarrow> utf8_valid out
          | Exited_nonzero rc out \<Rightarrow> utf8_valid out
          | Not_run \<Rightarrow> False)"

definition conntrack_succeeding :: "'h backend \<Rightarrow> 'h backend" where
  "conntrack_succeeding B =
     B\<lparr>run_process := (\<lambda>argv h. (Returned [], snd (run_process B argv h)))\<rparr>"

subsection \<open>A packet filter\<close>

text \<open>
  Modelled from the spec: the host state behind \<^verbatim>\<open>sshuttle.linux.ipt\<close>,
  \<^verbatim>\<open>ipt_ttl\<close> and \<^verbatim>\<open>ipt_chain_exists\<close>, none of which is among the sources.
  A chain is a named, ordered list of rules, in a table; a rule is a rule specification
  together with whether it was installed through the TTL variant. The commands are the
  ones the spec names: create a chain (\<^verbatim>\<open>-N\<close>, refused while a chain of that name
  exists: a leftover chain blocks the next setup), flush it (\<^verbatim>\<open>-F\<close>), delete it
  (\<^verbatim>\<open>-X\<close>, once it is empty), append a rule (\<^verbatim>\<open>-A\<close>), insert a rule at
  position 1 (\<^verbatim>\<open>-I\<close>), and remove the first rule equal to a specification
  (\<^verbatim>\<open>-D\<close>, refused when there is none). Every other command is refused, and
  a refused command changes nothing.
\<close>

type_synonym rule = "bool \<times> string list"

type_synonym pf = "string \<times> string \<Rightarrow> rule list option"

definition pf_command :: "bool \<Rightarrow> string \<Rightarrow> string list \<Rightarrow> pf \<Rightarrow> bool \<times> pf" where
  "pf_command ttl table args s =
     (case args of
        flag # c # spec \<Rightarrow>
          (case s (table, c) of
             None \<Rightarrow>
               if flag = ''-N'' \<and> spec = [] then (True, s((table, c) \<mapsto> [])) else (False, s)
           | Some rules \<Rightarrow>
               if flag = ''-F'' \<and> spec = [] then (True, s((table, c) \<mapsto> []))
               else if flag = ''-X'' \<and> spec = [] then
                 (if rules = [] then (True, s((table, c) := None)) else (False, s))
               else if flag = ''-A'' then (True, s((table, c) \<mapsto> rules @ [(ttl, spec)]))
               else if flag = ''-I'' then
                 (case spec of
                    pos # spec' \<Rightarrow>
                      if pos = ''1'' then (True, s((table, c) \<mapsto> (ttl, spec') # rules))
                      else (False, s)
                  | [] \<Rightarrow> (False, s))
               else if flag = ''-D'' then
                 (if (ttl, spec) \<in> set rules
                  then (True, s((table, c) \<mapsto> remove1 (ttl, spec) rules))
                  else (False, s))
               else (False, s))
      | _ \<Rightarrow> (False, s))"

definition pf_backend :: "process_result \<Rightarrow> pf backend" where
  "pf_backend pr =
     \<lparr>run_ipt = (\<lambda>family. pf_command False),
      run_ipt_ttl = (\<lambda>family. pf_command True),
      query_chain = (\<lambda>family table chain s. s (table, chain) \<noteq> None),
      run_process = (\<lambda>argv s. (pr, s))\<rparr>"

text \<open>A host with the built-in lists of the two tables, all empty.\<close>

definition pf_builtin :: pf where
  "pf_builtin =
     [(''nat'', ''OUTPUT'') \<mapsto> [], (''nat'', ''PREROUTING'') \<mapsto> [],
      (''mangle'', ''OUTPUT'') \<mapsto> []]"

text \<open>
  What the packet filter does with one call, with a list of required commands (none may be
  refused), with a list of best-effort commands, and with a whole teardown.
\<close>

definition pf_exec :: "call \<Rightarrow> pf \<Rightarrow> bool \<times> pf" where
  "pf_exec c s =
     (case c of
        Ipt family table args \<Rightarrow> pf_command False table args s
      | Ipt_ttl family table args \<Rightarrow> pf_command True table args s
      | _ \<Rightarrow> (True, s))"

primrec pf_run :: "call list \<Rightarrow> pf \<Rightarrow> pf option" where
  "pf_run [] s = Some s"
| "pf_run (c # cs) s = (if fst (pf_exec c s) then pf_run cs (snd (pf_exec c s)) else None)"

primrec pf_try :: "call list \<Rightarrow> pf \<Rightarrow> pf" where
  "pf_try [] s = s"
| "pf_try (c # cs) s = pf_try cs (snd (pf_exec c s))"

definition pf_restore :: "int \<Rightarrow> user_id option \<Rightarrow> pf \<Rightarrow> pf" where
  "pf_restore port user s =
     (if s (''nat'', chain_name port) \<noteq> None
      then snd (pf_exec (delete_chain port AF_INET) (pf_try (teardown_removals port AF_INET user) s))
      else s)"

section \<open>Sequencing, and what a run adds to the log\<close>

lemma pbind_preturn [simp]: "pbind (preturn x) f = f x"
  by (rule ext) (simp add: pbind_def preturn_def)
lemma pseq_preturn [simp]: "pseq (preturn x) q = q"
  by (simp add: pseq_def)
lemma pbind_praise [simp]: "pbind (praise e) f = praise e"
  by (rule ext) (simp add: pbind_def praise_def)
lemma pseq_praise [simp]: "pseq (praise e) q = praise e"
  by (simp add: pseq_def)
lemma pbind_pbind: "pbind (pbind p f) g = pbind p (\<lambda>x. pbind (f x) g)"
  by (rule ext) (simp add: pbind_def split: prod.splits sum.splits)
lemma pseq_assoc: "pseq (pseq p q) r = pseq p (pseq q r)"
  by (simp add: pseq_def pbind_pbind)
lemma pbind_pseq: "pbind (pseq p q) f = pseq p (pbind q f)"
  by (simp add: pseq_def pbind_pbind)
lemma pseq_unit [simp]: "pseq p (preturn ()) = (p :: ('h, unit) prog)"
  by (rule ext) (simp add: pseq_def pbind_def preturn_def split: prod.splits sum.splits)

lemma run_calls_append: "run_calls B (xs @ ys) = pseq (run_calls B xs) (run_calls B ys)"
  by (induction xs) (simp_all add: pseq_assoc)

lemma run_nonfatal_append: "run_nonfatal B (xs @ ys) = pseq (run_nonfatal B xs) (run_nonfatal B ys)"
  by (induction xs) (simp_all add: pseq_assoc)

lemma for_each_run_calls:
  "(\<And>x. body x = exec_call B (g x)) \<Longrightarrow> for_each xs body = run_calls B (map g xs)"
  by (induction xs) simp_all

lemma restore_firewall_plan:
  "restore_firewall B port AF_INET False user =
     pbind (ipt_chain_exists B AF_INET ''nat'' (chain_name port)) (\<lambda>ex.
       if ex then pseq (run_nonfatal B (teardown_removals port AF_INET user))
                       (exec_call B (delete_chain port AF_INET))
       else preturn ())"
  by (cases user)
     (simp_all add: restore_firewall_def teardown_removals_def delete_chain_def exec_call_def
        chain_name_def entry_spec_def mark_spec_def pbind_pseq pseq_assoc Let_def cong: if_cong)

lemma setup_firewall_plan:
  "setup_firewall B weight port dnsport nslist AF_INET subnets False user =
     pseq (restore_firewall B port AF_INET False user)
    (pseq (run_calls B (install_calls weight port dnsport nslist AF_INET subnets user))
          (flush_conntrack B))"
  unfolding setup_firewall_def Let_def chain_name_def [symmetric]
  apply (subst for_each_run_calls [where g = "dns_rule AF_INET port dnsport" and B = B])
   apply (simp add: exec_call_def dns_rule_def split: prod.splits)
  apply (subst for_each_run_calls [where g = "subnet_rule AF_INET port" and B = B])
   apply (simp add: exec_call_def subnet_rule_def port_range_def split: prod.splits)
  apply (cases user)
   apply (simp_all add: install_calls_def chain_rules_def run_calls_append pseq_assoc pbind_pseq
      exec_call_def ttl_rule_def local_rule_def llmnr_rule_def entry_spec_def mark_spec_def)
  done

lemma pseq_apply:
  "pseq p q w = (case p w of (Inl e, w') \<Rightarrow> (Inl e, w') | (Inr x, w') \<Rightarrow> q w')"
  by (simp add: pseq_def pbind_def)

lemma exec_call_cases:
  assumes "is_command c"
  shows "\<exists>ok w'. exec_call B c w = (if ok then Inr () else Inl (Fatal c), w')
           \<and> issued w' = issued w @ [(c, ok)]"
proof (cases c)
  case (Ipt f t a)
  then show ?thesis
    by (auto simp: exec_call_def ipt_def split: prod.splits)
next
  case (Ipt_ttl f t a)
  then show ?thesis
    by (auto simp: exec_call_def ipt_ttl_def split: prod.splits)
qed (use assms in simp_all)

lemma nonfatal_exec_call:
  assumes "is_command c"
  shows "\<exists>ok w'. nonfatal (exec_call B c) w = (Inr (), w') \<and> issued w' = issued w @ [(c, ok)]"
proof -
  from exec_call_cases [OF assms, of B w] obtain ok w'
    where "exec_call B c w = (if ok then Inr () else Inl (Fatal c), w')"
      and "issued w' = issued w @ [(c, ok)]" by blast
  then show ?thesis
    by (cases ok) (auto simp: nonfatal_def try_except_def preturn_def)
qed

lemma run_calls_ok:
  "list_all is_command cs \<Longrightarrow> run_calls B cs w = (Inr (), w') \<Longrightarrow>
   issued w' = issued w @ map (\<lambda>c. (c, True)) cs"
proof (induction cs arbitrary: w)
  case Nil
  then show ?case by (simp add: preturn_def)
next
  case (Cons c cs)
  from Cons.prems(1) have c: "is_command c" and cs: "list_all is_command cs" by simp_all
  from exec_call_cases [OF c, of B w] obtain ok w1
    where e: "exec_call B c w = (if ok then Inr () else Inl (Fatal c), w1)"
      and l: "issued w1 = issued w @ [(c, ok)]" by blast
  show ?case
  proof (cases ok)
    case True
    with e Cons.prems(2) have "run_calls B cs w1 = (Inr (), w')" by (simp add: pseq_apply)
    from Cons.IH [OF cs this] l True show ?thesis by simp
  next
    case False
    with e Cons.prems(2) show ?thesis by (simp add: pseq_apply)
  qed
qed

lemma run_calls_failed:
  "list_all is_command cs \<Longrightarrow> run_calls B cs w = (Inl e, w') \<Longrightarrow>
   \<exists>pre c post. cs = pre @ c # post \<and> e = Fatal c
      \<and> issued w' = issued w @ map (\<lambda>c. (c, True)) pre @ [(c, False)]"
proof (induction cs arbitrary: w)
  case Nil
  then show ?case by (simp add: preturn_def)
next
  case (Cons c cs)
  from Cons.prems(1) have c: "is_command c" and cs: "list_all is_command cs" by simp_all
  from exec_call_cases [OF c, of B w] obtain ok w1
    where e: "exec_call B c w = (if ok then Inr () else Inl (Fatal c), w1)"
      and l: "issued w1 = issued w @ [(c, ok)]" by blast
  show ?case
  proof (cases ok)
    case True
    with e Cons.prems(2) have "run_calls B cs w1 = (Inl e, w')" by (simp add: pseq_apply)
    from Cons.IH [OF cs this] obtain pre d post where
      "cs = pre @ d # post" "e = Fatal d"
      "issued w' = issued w1 @ map (\<lambda>c. (c, True)) pre @ [(d, False)]" by blast
    with l True have "c # cs = (c # pre) @ d # post \<and> e = Fatal d
      \<and> issued w' = issued w @ map (\<lambda>c. (c, True)) (c # pre) @ [(d, False)]" by simp
    then show ?thesis by blast
  next
    case False
    with e Cons.prems(2) have "e = Fatal c" "w' = w1" by (simp_all add: pseq_apply)
    with l False have "c # cs = [] @ c # cs \<and> e = Fatal c
      \<and> issued w' = issued w @ map (\<lambda>c. (c, True)) [] @ [(c, False)]" by simp
    then show ?thesis by blast
  qed
qed

lemma run_nonfatal_events:
  "list_all is_command cs \<Longrightarrow>
   \<exists>flags w'. run_nonfatal B cs w = (Inr (), w') \<and> length flags = length cs
      \<and> issued w' = issued w @ zip cs flags"
proof (induction cs arbitrary: w)
  case Nil
  then show ?case by (simp add: preturn_def)
next
  case (Cons c cs)
  from Cons.prems have c: "is_command c" and cs: "list_all is_command cs" by simp_all
  from nonfatal_exec_call [OF c, of B w] obtain ok w1
    where e: "nonfatal (exec_call B c) w = (Inr (), w1)"
      and l: "issued w1 = issued w @ [(c, ok)]" by blast
  from Cons.IH [OF cs, of w1] obtain flags w' where
    r: "run_nonfatal B cs w1 = (Inr (), w')" "length flags = length cs"
       "issued w' = issued w1 @ zip cs flags" by blast
  with e l have "run_nonfatal B (c # cs) w = (Inr (), w') \<and> length (ok # flags) = length (c # cs)
      \<and> issued w' = issued w @ zip (c # cs) (ok # flags)" by (simp add: pseq_apply)
  then show ?case by blast
qed

lemma flush_conntrack_events:
  "\<exists>r ok w'. flush_conntrack B w = (r, w') \<and> issued w' = issued w @ [(conntrack_call, ok)]"
  by (auto simp: flush_conntrack_def check_output_def try_except_def pbind_def preturn_def praise_def
        str_utf8_def debug2_def conntrack_call_def split: process_result.splits prod.splits)

lemma teardown_removals_commands: "list_all is_command (teardown_removals port family user)"
  by (cases user) (simp_all add: teardown_removals_def)

lemma install_calls_commands:
  "list_all is_command (install_calls weight port dnsport nslist family subnets user)"
  by (cases user)
     (auto simp: install_calls_def chain_rules_def ttl_rule_def dns_rule_def local_rule_def
        subnet_rule_def llmnr_rule_def list_all_iff split: prod.splits)

lemma restore_firewall_absent:
  assumes "\<not> query_chain B AF_INET ''nat'' (chain_name port) (host w)"
  shows "restore_firewall B port AF_INET False user w =
    (Inr (), w\<lparr>issued := issued w @ [(Ipt_chain_exists AF_INET ''nat'' (chain_name port), False)]\<rparr>)"
  using assms by (simp add: restore_firewall_plan pbind_def ipt_chain_exists_def preturn_def)

lemma restore_firewall_present:
  assumes "query_chain B AF_INET ''nat'' (chain_name port) (host w)"
  shows "\<exists>flags ok w'. length flags = length (teardown_removals port AF_INET user)
    \<and> restore_firewall B port AF_INET False user w =
        (if ok then Inr () else Inl (Fatal (delete_chain port AF_INET)), w')
    \<and> issued w' = issued w @ (Ipt_chain_exists AF_INET ''nat'' (chain_name port), True)
         # zip (teardown_removals port AF_INET user) flags @ [(delete_chain port AF_INET, ok)]"
proof -
  define w0 where "w0 = w\<lparr>issued := issued w @ [(Ipt_chain_exists AF_INET ''nat'' (chain_name port), True)]\<rparr>"
  from run_nonfatal_events [OF teardown_removals_commands, of B port AF_INET user w0]
  obtain flags w1 where
    r: "run_nonfatal B (teardown_removals port AF_INET user) w0 = (Inr (), w1)"
       "length flags = length (teardown_removals port AF_INET user)"
       "issued w1 = issued w0 @ zip (teardown_removals port AF_INET user) flags" by blast
  have "is_command (delete_chain port AF_INET)" by (simp add: delete_chain_def)
  from exec_call_cases [OF this, of B w1] obtain ok w'
    where e: "exec_call B (delete_chain port AF_INET) w1
               = (if ok then Inr () else Inl (Fatal (delete_chain port AF_INET)), w')"
      and l: "issued w' = issued w1 @ [(delete_chain port AF_INET, ok)]" by blast
  have "restore_firewall B port AF_INET False user w
        = (if ok then Inr () else Inl (Fatal (delete_chain port AF_INET)), w')"
    using assms r(1) e
    by (simp add: restore_firewall_plan pbind_def ipt_chain_exists_def pseq_apply w0_def)
  moreover have "issued w' = issued w @ (Ipt_chain_exists AF_INET ''nat'' (chain_name port), True)
         # zip (teardown_removals port AF_INET user) flags @ [(delete_chain port AF_INET, ok)]"
    using l r(3) by (simp add: w0_def)
  ultimately show ?thesis using r(2) by blast
qed

lemma traces_pseq:
  assumes p: "traces p w cs" and q: "\<And>w'. traces q w' ds"
  shows "traces (pseq p q) w (cs @ ds)"
proof -
  from p obtain es where es: "issued (snd (p w)) = issued w @ es" "prefix (map fst es) cs"
    "(\<exists>x. fst (p w) = Inr x) \<longrightarrow> map fst es = cs" by (auto simp: traces_def)
  obtain r w1 where pw: "p w = (r, w1)" by fastforce
  show ?thesis
  proof (cases r)
    case (Inl e)
    with pw have "pseq p q w = (Inl e, w1)" by (simp add: pseq_apply)
    with es pw show ?thesis by (auto simp: traces_def intro: prefix_prefix)
  next
    case (Inr x)
    with pw have pq: "pseq p q w = q w1" by (simp add: pseq_apply)
    from es pw Inr have cs: "map fst es = cs" "issued w1 = issued w @ es" by simp_all
    from q [of w1] obtain fs where fs: "issued (snd (q w1)) = issued w1 @ fs" "prefix (map fst fs) ds"
      "(\<exists>x. fst (q w1) = Inr x) \<longrightarrow> map fst fs = ds" by (auto simp: traces_def)
    have "issued (snd (pseq p q w)) = issued w @ (es @ fs)" using pq cs fs by simp
    moreover have "prefix (map fst (es @ fs)) (cs @ ds)" using cs fs by simp
    moreover have "(\<exists>x. fst (pseq p q w) = Inr x) \<longrightarrow> map fst (es @ fs) = cs @ ds"
      using pq cs fs by simp
    ultimately show ?thesis unfolding traces_def by blast
  qed
qed

lemma traces_run_calls: "list_all is_command cs \<Longrightarrow> traces (run_calls B cs) w cs"
proof -
  assume a: "list_all is_command cs"
  obtain r w' where rw: "run_calls B cs w = (r, w')" by fastforce
  show ?thesis
  proof (cases r)
    case (Inl e)
    from run_calls_failed [OF a rw [unfolded Inl]] obtain pre c post where
      "cs = pre @ c # post" "issued w' = issued w @ map (\<lambda>c. (c, True)) pre @ [(c, False)]"
      by blast
    with rw Inl show ?thesis by (auto simp: traces_def comp_def)
  next
    case (Inr u)
    with rw have "run_calls B cs w = (Inr (), w')" by simp
    from run_calls_ok [OF a this] rw show ?thesis by (auto simp: traces_def comp_def)
  qed
qed

lemma traces_flush_conntrack: "traces (flush_conntrack B) w [conntrack_call]"
  using flush_conntrack_events [of B w] by (auto simp: traces_def)

lemma traces_restore_firewall:
  "traces (restore_firewall B port AF_INET False user) w
     (teardown_calls (query_chain B AF_INET ''nat'' (chain_name port) (host w)) port AF_INET user)"
proof -
  define ex where "ex = query_chain B AF_INET ''nat'' (chain_name port) (host w)"
  show ?thesis
  proof (cases ex)
  case True
  then have True: "query_chain B AF_INET ''nat'' (chain_name port) (host w)" by (simp add: ex_def)
  from restore_firewall_present [OF True, of user] obtain flags ok w' where
    "length flags = length (teardown_removals port AF_INET user)"
    "restore_firewall B port AF_INET False user w =
        (if ok then Inr () else Inl (Fatal (delete_chain port AF_INET)), w')"
    "issued w' = issued w @ (Ipt_chain_exists AF_INET ''nat'' (chain_name port), True)
         # zip (teardown_removals port AF_INET user) flags @ [(delete_chain port AF_INET, ok)]"
    by blast
  with True show ?thesis by (auto simp: traces_def teardown_calls_def)
next
  case False
  then have False: "\<not> query_chain B AF_INET ''nat'' (chain_name port) (host w)" by (simp add: ex_def)
  from restore_firewall_absent [OF False, of user] False show ?thesis
    by (simp add: traces_def teardown_calls_def)
qed
qed

lemma traces_setup_firewall:
  "traces (setup_firewall B weight port dnsport nslist AF_INET subnets False user) w
     (setup_calls (query_chain B AF_INET ''nat'' (chain_name port) (host w))
        weight port dnsport nslist AF_INET subnets user)"
  unfolding setup_firewall_plan setup_calls_def
  by (intro traces_pseq traces_restore_firewall traces_run_calls traces_flush_conntrack
        install_calls_commands)

lemma traces_calls_issued: "traces p w cs \<Longrightarrow> prefix (calls_issued p w) cs"
  by (auto simp: traces_def calls_issued_def new_events_def)

lemma traces_calls_issued_ok: "traces p w cs \<Longrightarrow> fst (p w) = Inr x \<Longrightarrow> calls_issued p w = cs"
  by (auto simp: traces_def calls_issued_def new_events_def)

lemma setup_firewall_valid:
  "fst (setup_firewall B weight port dnsport nslist family subnets udp user w) = Inr x
   \<Longrightarrow> family = AF_INET \<and> \<not> udp"
  by (auto simp: setup_firewall_def praise_def split: if_splits)

lemma setup_firewall_invalid:
  "family \<noteq> AF_INET \<or> udp \<Longrightarrow>
   setup_firewall B weight port dnsport nslist family subnets udp user w =
     (Inl (if family \<noteq> AF_INET then Unsupported_family family else Unsupported_udp), w)"
  by (auto simp: setup_firewall_def praise_def)

lemma restore_firewall_invalid:
  "family \<noteq> AF_INET \<or> udp \<Longrightarrow>
   restore_firewall B port family udp user w =
     (Inl (if family \<noteq> AF_INET then Unsupported_family family else Unsupported_udp), w)"
  by (auto simp: restore_firewall_def praise_def)

lemma calls_issued_unchanged: "snd (p w) = w \<Longrightarrow> calls_issued p w = []"
  by (simp add: calls_issued_def new_events_def)

section \<open>Decimal numerals determine their numbers\<close>

lemma digit_cases: "d < 10 \<Longrightarrow> d \<in> {0, 1, 2, 3, 4, 5, 6, 7, 8, 9 :: nat}"
  by auto

lemma digit_char_value: "d < 10 \<Longrightarrow> of_char (digit_char d) = 48 + d"
  using digit_cases [of d] by (auto simp: digit_char_def)

lemma digit_char_no_minus: "d < 10 \<Longrightarrow> CHR ''-'' \<noteq> digit_char d"
  using digit_cases [of d] by (auto simp: digit_char_def)

lemma str_nat_value: "foldl (\<lambda>a c. 10 * a + (of_char c - 48)) 0 (str_nat n) = n"
proof (induction n rule: str_nat.induct)
  case (1 n)
  consider (small) "n < 10" | (big) "\<not> n < 10" by blast
  then show ?case
  proof cases
    case small
    then show ?thesis by (subst str_nat.simps) (simp add: digit_char_value)
  next
    case big
    then have "foldl (\<lambda>a c. 10 * a + (of_char c - 48)) 0 (str_nat (n div 10)) = n div 10"
      using 1 by simp
    with big show ?thesis
      by (subst str_nat.simps) (simp add: digit_char_value)
  qed
qed

lemma str_nat_inj: "str_nat m = str_nat n \<Longrightarrow> m = n"
  by (metis str_nat_value)

lemma str_nat_no_minus: "CHR ''-'' \<notin> set (str_nat n)"
proof (induction n rule: str_nat.induct)
  case (1 n)
  consider (small) "n < 10" | (big) "\<not> n < 10" by blast
  then show ?case
  proof cases
    case small
    then show ?thesis by (subst str_nat.simps) (simp add: digit_char_no_minus)
  next
    case big
    with 1 show ?thesis by (subst str_nat.simps) (simp add: digit_char_no_minus)
  qed
qed

lemma str_nat_nonempty: "str_nat n \<noteq> []"
  by (subst str_nat.simps) simp

lemma str_nat_hd: "hd (str_nat n) \<noteq> CHR ''-''"
  using str_nat_no_minus str_nat_nonempty by (metis hd_in_set)

lemma str_int_inj: "str_int i = str_int j \<Longrightarrow> i = j"
proof -
  assume a: "str_int i = str_int j"
  consider (nn) "i < 0" "j < 0" | (np) "i < 0" "\<not> j < 0" | (pn) "\<not> i < 0" "j < 0"
    | (pp) "\<not> i < 0" "\<not> j < 0" by blast
  then show ?thesis
  proof cases
    case nn
    with a have "str_nat (nat (- i)) = str_nat (nat (- j))" by (simp add: str_int_def)
    with nn show ?thesis by (auto dest: str_nat_inj)
  next
    case np
    with a have "CHR ''-'' # str_nat (nat (- i)) = str_nat (nat j)" by (simp add: str_int_def)
    then have "hd (str_nat (nat j)) = CHR ''-''" by (metis list.sel(1))
    with str_nat_hd show ?thesis by blast
  next
    case pn
    with a have "CHR ''-'' # str_nat (nat (- j)) = str_nat (nat i)" by (simp add: str_int_def)
    then have "hd (str_nat (nat i)) = CHR ''-''" by (metis list.sel(1))
    with str_nat_hd show ?thesis by blast
  next
    case pp
    with a have "str_nat (nat i) = str_nat (nat j)" by (simp add: str_int_def)
    with pp show ?thesis by (auto dest: str_nat_inj)
  qed
qed

lemma chain_name_inj: "chain_name p = chain_name q \<Longrightarrow> p = q"
  by (simp add: chain_name_def str_int_inj)

lemma str_int_12300: "str_int 12300 = ''12300''"
  by (simp add: str_int_def str_nat.simps digit_char_def)

lemma str_int_12301: "str_int 12301 = ''12301''"
  by (simp add: str_int_def str_nat.simps digit_char_def)

section \<open>Plans of a setup, filtered\<close>

lemmas run_defs = pbind_def pseq_def preturn_def praise_def try_except_def nonfatal_def
  ipt_def ipt_ttl_def ipt_chain_exists_def check_output_def str_utf8_def debug2_def
  flush_conntrack_def scripted_def start_def Let_def

lemmas call_defs = setup_calls_def teardown_calls_def teardown_removals_def delete_chain_def
  install_calls_def chain_rules_def ttl_rule_def local_rule_def llmnr_rule_def conntrack_call_def
  entry_spec_def mark_spec_def

lemma exec_call_conntrack_succeeding [simp]:
  "exec_call (conntrack_succeeding B) c = exec_call B c"
  by (cases c) (simp_all add: exec_call_def ipt_def ipt_ttl_def conntrack_succeeding_def fun_eq_iff)

lemma run_calls_conntrack_succeeding [simp]:
  "run_calls (conntrack_succeeding B) cs = run_calls B cs"
  by (induction cs) simp_all

lemma run_nonfatal_conntrack_succeeding [simp]:
  "run_nonfatal (conntrack_succeeding B) cs = run_nonfatal B cs"
  by (induction cs) simp_all

lemma restore_firewall_conntrack_succeeding [simp]:
  "restore_firewall (conntrack_succeeding B) port AF_INET False user
   = restore_firewall B port AF_INET False user"
proof -
  have "ipt_chain_exists (conntrack_succeeding B) = ipt_chain_exists B"
    by (simp add: ipt_chain_exists_def conntrack_succeeding_def fun_eq_iff)
  then show ?thesis by (simp add: restore_firewall_plan cong: if_cong)
qed

lemma flush_conntrack_soft:
  assumes "conntrack_exits B"
  shows "fst (flush_conntrack B w) = Inr ()
       \<and> fst (flush_conntrack (conntrack_succeeding B) w) = Inr ()
       \<and> host (snd (flush_conntrack B w)) = host (snd (flush_conntrack (conntrack_succeeding B) w))"
proof -
  obtain pr h' where r: "run_process B [''conntrack'', ''-D'', ''--dst'', ''224.0.0.252''] (host w) = (pr, h')"
    by fastforce
  from assms have "case fst (run_process B [''conntrack'', ''-D'', ''--dst'', ''224.0.0.252''] (host w)) of
            Returned out \<Rightarrow> utf8_valid out
          | Exited_nonzero rc out \<Rightarrow> utf8_valid out
          | Not_run \<Rightarrow> False"
    unfolding conntrack_exits_def by blast
  with r show ?thesis
    by (cases pr)
       (simp_all add: flush_conntrack_def check_output_def try_except_def pbind_def preturn_def
          praise_def str_utf8_def debug2_def conntrack_succeeding_def)
qed

lemma setup_firewall_ok_calls:
  assumes "fst (setup_firewall B weight port dnsport nslist family subnets udp user w) = Inr x"
  shows "calls_issued (setup_firewall B weight port dnsport nslist family subnets udp user) w
         = setup_calls (query_chain B family ''nat'' (chain_name port) (host w))
             weight port dnsport nslist family subnets user"
proof -
  from setup_firewall_valid [OF assms] have v: "family = AF_INET" "udp = False" by simp_all
  from assms show ?thesis
    unfolding v by (rule traces_calls_issued_ok [OF traces_setup_firewall])
qed

lemma setup_firewall_calls_prefix:
  "prefix (calls_issued (setup_firewall B weight port dnsport nslist family subnets udp user) w)
     (setup_calls (query_chain B AF_INET ''nat'' (chain_name port) (host w))
             weight port dnsport nslist AF_INET subnets user)"
proof -
  consider (bad) "family \<noteq> AF_INET \<or> udp" | (good) "family = AF_INET" "\<not> udp" by blast
  then show ?thesis
  proof cases
    case bad
    then show ?thesis by (simp add: setup_firewall_invalid calls_issued_unchanged)
  next
    case good
    with traces_calls_issued [OF traces_setup_firewall, of B weight port dnsport nslist subnets user w]
    show ?thesis by simp
  qed
qed

lemma filter_tcp_subnet_rules:
  "filter is_tcp_rule (map (subnet_rule family port) xs) = map (subnet_rule family port) xs"
  by (induction xs) (auto simp: subnet_rule_def split: prod.splits)

lemma filter_tcp_dns_rules:
  "filter is_tcp_rule (map (dns_rule family port dnsport) xs) = []"
  by (induction xs) (auto simp: dns_rule_def)

lemma filter_dns_subnet_rules:
  "filter is_dns_rule (map (subnet_rule family port) xs) = []"
  by (induction xs) (auto simp: subnet_rule_def split: prod.splits)

lemma filter_dns_dns_rules:
  "filter is_dns_rule (map (dns_rule family port dnsport) xs) = map (dns_rule family port dnsport) xs"
  by (induction xs) (auto simp: dns_rule_def)

lemma filter_tcp_setup_calls:
  "filter is_tcp_rule (setup_calls ex weight port dnsport nslist family subnets user)
   = map (subnet_rule family port) (sorted_reverse weight subnets)"
  by (cases user) (simp_all add: call_defs filter_tcp_subnet_rules filter_tcp_dns_rules)

lemma filter_dns_setup_calls:
  "filter is_dns_rule (setup_calls ex weight port dnsport nslist family subnets user)
   = map (dns_rule family port dnsport) (filter (\<lambda>ns. fst ns = family) nslist)"
  by (cases user) (simp_all add: call_defs filter_dns_subnet_rules filter_dns_dns_rules)


lemma sorted_reverse_descending: "sorted (rev (map k (sorted_reverse k xs)))"
  by (simp add: sorted_reverse_def rev_map)

lemma sorted_reverse_mset: "mset (sorted_reverse k xs) = mset xs"
  by (simp add: sorted_reverse_def)

lemma sorted_reverse_stable:
  "filter (\<lambda>x. k x = v) (sorted_reverse k xs) = filter (\<lambda>x. k x = v) xs"
  by (simp add: sorted_reverse_def rev_filter [symmetric] sort_key_stable)


lemma subnets_run_ok:
  "fst (setup_firewall (scripted False (Returned [])) (\<lambda>(f, swidth, r). swidth) 12300 12301
          [] AF_INET
          [(AF_INET, 8, False, ''10.0.0.0'', 0, 0), (AF_INET, 24, True, ''10.1.1.0'', 1000, 2000)]
          False None (start [])) = Inr ()"
  by (simp add: setup_firewall_def restore_firewall_def sorted_reverse_def str_int_12300
        str_int_12301 run_defs)

lemma dns_run_ok:
  "fst (setup_firewall (scripted False (Returned [])) (\<lambda>s. 0::int) 12300 12301
          [(AF_INET, ''10.0.0.1''), (10, ''fd00::1''), (AF_INET, ''192.168.1.1'')] AF_INET [] False None
          (start [])) = Inr ()"
  by (simp add: setup_firewall_def restore_firewall_def sorted_reverse_def str_int_12300
        str_int_12301 run_defs AF_INET_def)

section \<open>Namespacing, inserts and deletes\<close>

lemma two_or_more: "2 \<le> length xs \<Longrightarrow> \<exists>a b r. xs = a # b # r"
proof (cases xs)
  case Nil
  assume "2 \<le> length xs"
  with Nil show ?thesis by simp
next
  case (Cons a ys)
  assume "2 \<le> length xs"
  with Cons show ?thesis by (cases ys) simp_all
qed

lemma take_two: "take 2 xs = [a, b] \<Longrightarrow> \<exists>r. xs = a # b # r"
proof -
  assume t: "take 2 xs = [a, b]"
  then have "length (take 2 xs) = 2" by simp
  then have "2 \<le> length xs" by simp
  from two_or_more [OF this] obtain a' b' r where "xs = a' # b' # r" by blast
  with t show ?thesis by simp
qed

lemma namespaced_setup_calls:
  "list_all (namespaced port user) (setup_calls ex weight port dnsport nslist AF_INET subnets user)"
proof -
  have a: "\<And>xs u. list_all (namespaced port u) (map (subnet_rule AF_INET port) xs)"
    by (simp add: list_all_iff subnet_rule_def split: prod.splits)
  have b: "\<And>xs u. list_all (namespaced port u) (map (dns_rule AF_INET port dnsport) xs)"
    by (simp add: list_all_iff dns_rule_def)
  show ?thesis
    by (cases user) (simp_all add: call_defs a b jumps_to_def)
qed

lemma list_all_prefix: "prefix xs ys \<Longrightarrow> list_all P ys \<Longrightarrow> list_all P xs"
  by (auto simp: prefix_def)

lemma filter_prefix_length: "prefix xs ys \<Longrightarrow> length (filter P xs) \<le> length (filter P ys)"
  by (auto simp: prefix_def)

lemma namespaced_calls_issued:
  "list_all (namespaced port user)
     (calls_issued (setup_firewall B weight port dnsport nslist family subnets udp user) w)"
  using list_all_prefix [OF setup_firewall_calls_prefix namespaced_setup_calls] .

lemma mangle_setup_calls:
  "length (filter (in_table ''mangle'')
     (setup_calls ex weight port dnsport nslist AF_INET subnets user))
   \<le> (if user = None then 0 else 2)"
proof -
  have a: "\<And>xs. filter (in_table ''mangle'') (map (subnet_rule AF_INET port) xs) = []"
    by (simp add: filter_empty_conv subnet_rule_def split: prod.splits)
  have b: "\<And>xs. filter (in_table ''mangle'') (map (dns_rule AF_INET port dnsport) xs) = []"
    by (simp add: filter_empty_conv dns_rule_def)
  show ?thesis
    by (cases user) (simp_all add: call_defs a b)
qed

lemma namespaced_touched:
  "namespaced port user c \<Longrightarrow> touched_chain c = Some x \<Longrightarrow> x = (''nat'', chain_name port)"
proof (cases c)
  case (Ipt f t args)
  assume n: "namespaced port user c" and t: "touched_chain c = Some x"
  from t Ipt have co: "chain_op args" and len: "2 \<le> length args" and x: "x = (t, args ! 1)"
    by (simp_all split: if_splits)
  from two_or_more [OF len] obtain a b rest where args: "args = a # b # rest" by blast
  consider (nat) "t = ''nat''" | (other) "t \<noteq> ''nat''" by blast
  then show ?thesis
  proof cases
    case nat
    with n Ipt co args x show ?thesis by (auto simp: chain_op_def)
  next
    case other
    with n Ipt co args show ?thesis by (auto simp: chain_op_def mark_spec_def split: option.splits)
  qed
next
  case (Ipt_ttl f t args)
  assume n: "namespaced port user c" and t: "touched_chain c = Some x"
  from t Ipt_ttl have len: "2 \<le> length args" and x: "x = (t, args ! 1)"
    by (simp_all split: if_splits)
  from two_or_more [OF len] obtain a b rest where args: "args = a # b # rest" by blast
  with n Ipt_ttl x show ?thesis by auto
qed simp_all

lemma setup_existing_chain_calls:
  "calls_issued (setup_firewall (scripted True (Returned [])) (\<lambda>s. 0::int) 12300 12301 [] AF_INET []
      False None) (start [])
   = [Ipt_chain_exists AF_INET ''nat'' ''sshuttle-12300'',
      Ipt AF_INET ''nat'' [''-D'', ''OUTPUT'', ''-j'', ''sshuttle-12300''],
      Ipt AF_INET ''nat'' [''-D'', ''PREROUTING'', ''-j'', ''sshuttle-12300''],
      Ipt AF_INET ''nat'' [''-F'', ''sshuttle-12300''],
      Ipt AF_INET ''nat'' [''-X'', ''sshuttle-12300''],
      Ipt AF_INET ''nat'' [''-N'', ''sshuttle-12300''],
      Ipt AF_INET ''nat'' [''-F'', ''sshuttle-12300''],
      Ipt AF_INET ''nat'' [''-I'', ''OUTPUT'', ''1'', ''-j'', ''sshuttle-12300''],
      Ipt AF_INET ''nat'' [''-I'', ''PREROUTING'', ''1'', ''-j'', ''sshuttle-12300''],
      Ipt_ttl AF_INET ''nat''
        [''-A'', ''sshuttle-12300'', ''-j'', ''RETURN'', ''-m'', ''ttl'', ''--ttl'', ''63''],
      Ipt AF_INET ''nat''
        [''-A'', ''sshuttle-12300'', ''-j'', ''RETURN'', ''-m'', ''addrtype'', ''--dst-type'', ''LOCAL''],
      Ipt_ttl AF_INET ''nat''
        [''-A'', ''sshuttle-12300'', ''-j'', ''REDIRECT'', ''--dest'', ''224.0.0.252/32'',
         ''-p'', ''udp'', ''--dport'', ''5355'', ''--to-ports'', ''12301''],
      Check_output [''conntrack'', ''-D'', ''--dst'', ''224.0.0.252'']]"
  by (simp add: calls_issued_def new_events_def setup_firewall_def restore_firewall_def
        sorted_reverse_def str_int_12300 str_int_12301 run_defs)

lemma restore_calls_present:
  assumes "query_chain B AF_INET ''nat'' (chain_name port) (host w)"
  shows "calls_issued (restore_firewall B port AF_INET False user) w
         = teardown_calls True port AF_INET user"
proof -
  from restore_firewall_present [OF assms, of user] obtain flags ok w' where
    "length flags = length (teardown_removals port AF_INET user)"
    "restore_firewall B port AF_INET False user w =
        (if ok then Inr () else Inl (Fatal (delete_chain port AF_INET)), w')"
    "issued w' = issued w @ (Ipt_chain_exists AF_INET ''nat'' (chain_name port), True)
         # zip (teardown_removals port AF_INET user) flags @ [(delete_chain port AF_INET, ok)]"
    by blast
  then show ?thesis by (simp add: calls_issued_def new_events_def teardown_calls_def)
qed

lemma filter_insert_setup_calls:
  "filter is_insert (setup_calls ex weight port dnsport nslist family subnets user)
   = (case user of
        Some u \<Rightarrow> [Ipt family ''mangle'' ([''-I'', ''OUTPUT'', ''1''] @ mark_spec port u)]
      | None \<Rightarrow> [])
     @ [Ipt family ''nat'' ([''-I'', ''OUTPUT'', ''1''] @ entry_spec port user),
        Ipt family ''nat'' ([''-I'', ''PREROUTING'', ''1''] @ entry_spec port user)]"
proof -
  have a: "\<And>xs. filter is_insert (map (subnet_rule family port) xs) = []"
    by (simp add: filter_empty_conv subnet_rule_def split: prod.splits)
  have b: "\<And>xs. filter is_insert (map (dns_rule family port dnsport) xs) = []"
    by (simp add: filter_empty_conv dns_rule_def)
  show ?thesis
    by (cases user)
       (simp_all add: setup_calls_def teardown_calls_def teardown_removals_def delete_chain_def
          install_calls_def chain_rules_def ttl_rule_def local_rule_def llmnr_rule_def
          conntrack_call_def a b)
qed

lemma filter_delete_teardown_calls:
  "filter is_delete (teardown_calls True port family user)
   = (case user of
        Some u \<Rightarrow> [Ipt family ''mangle'' ([''-D'', ''OUTPUT''] @ mark_spec port u)]
      | None \<Rightarrow> [])
     @ [Ipt family ''nat'' ([''-D'', ''OUTPUT''] @ entry_spec port user),
        Ipt family ''nat'' ([''-D'', ''PREROUTING''] @ entry_spec port user)]"
  by (cases user) (simp_all add: teardown_calls_def teardown_removals_def delete_chain_def)

lemma users_setup_ok:
  "fst (setup_firewall (scripted False (Returned [])) (\<lambda>s. 0::int) 12300 12301 [] AF_INET [] False
          (Some (Uid 1000)) (start [])) = Inr ()"
  by (simp add: setup_firewall_def restore_firewall_def sorted_reverse_def str_int_12300
        str_int_12301 run_defs)

lemma restore_calls_always:
  "calls_issued (restore_firewall B port AF_INET False user) w
   = teardown_calls (query_chain B AF_INET ''nat'' (chain_name port) (host w)) port AF_INET user"
proof -
  define ex where "ex = query_chain B AF_INET ''nat'' (chain_name port) (host w)"
  show ?thesis
  proof (cases ex)
    case True
    then have "query_chain B AF_INET ''nat'' (chain_name port) (host w)" by (simp add: ex_def)
    from restore_calls_present [OF this] True show ?thesis by (simp add: ex_def)
  next
    case False
    then have q: "\<not> query_chain B AF_INET ''nat'' (chain_name port) (host w)" by (simp add: ex_def)
    from restore_firewall_absent [OF q, of user] q show ?thesis
      by (simp add: calls_issued_def new_events_def teardown_calls_def)
  qed
qed

lemma prefix_drop: "prefix xs (a @ b) \<Longrightarrow> prefix (drop (length a) xs) b"
proof -
  assume "prefix xs (a @ b)"
  then obtain zs where "a @ b = xs @ zs" by (auto simp: prefix_def)
  then have "drop (length a) (a @ b) = drop (length a) (xs @ zs)" by simp
  then have "b = drop (length a) xs @ drop (length a - length xs) zs" by simp
  then show ?thesis by (rule prefixI)
qed

lemma stated_install_calls:
  "list_all (namespaced_as_stated port user)
     (install_calls weight port dnsport nslist AF_INET subnets user @ [conntrack_call])"
proof -
  have a: "\<And>xs u. list_all (namespaced_as_stated port u) (map (subnet_rule AF_INET port) xs)"
    by (simp add: list_all_iff subnet_rule_def split: prod.splits)
  have b: "\<And>xs u. list_all (namespaced_as_stated port u) (map (dns_rule AF_INET port dnsport) xs)"
    by (simp add: list_all_iff dns_rule_def)
  show ?thesis
    by (cases user) (simp_all add: call_defs a b jumps_to_def)
qed

lemma stated_after_teardown:
  "list_all (namespaced_as_stated port user)
     (drop (length (calls_issued (restore_firewall B port family udp user) w))
        (calls_issued (setup_firewall B weight port dnsport nslist family subnets udp user) w))"
proof -
  consider (bad) "family \<noteq> AF_INET \<or> udp" | (good) "family = AF_INET" "udp = False" by blast
  then show ?thesis
  proof cases
    case bad
    then show ?thesis by (simp add: setup_firewall_invalid calls_issued_unchanged)
  next
    case good
    have "prefix (calls_issued (setup_firewall B weight port dnsport nslist AF_INET subnets False user) w)
            (teardown_calls (query_chain B AF_INET ''nat'' (chain_name port) (host w)) port AF_INET user
             @ (install_calls weight port dnsport nslist AF_INET subnets user @ [conntrack_call]))"
      using setup_firewall_calls_prefix [of B weight port dnsport nslist AF_INET subnets False user w]
      by (simp add: setup_calls_def)
    from prefix_drop [OF this]
    have "prefix (drop (length (calls_issued (restore_firewall B port AF_INET False user) w))
             (calls_issued (setup_firewall B weight port dnsport nslist AF_INET subnets False user) w))
            (install_calls weight port dnsport nslist AF_INET subnets user @ [conntrack_call])"
      by (simp add: restore_calls_always)
    from list_all_prefix [OF this stated_install_calls] show ?thesis unfolding good .
  qed
qed

section \<open>Runs on the packet filter\<close>

lemma exec_call_pf:
  assumes "is_command c"
  shows "exec_call (pf_backend pr) c w =
           (if fst (pf_exec c (host w)) then Inr () else Inl (Fatal c),
            w\<lparr>host := snd (pf_exec c (host w)),
              issued := issued w @ [(c, fst (pf_exec c (host w)))]\<rparr>)"
  using assms
  by (cases c) (simp_all add: exec_call_def ipt_def ipt_ttl_def pf_backend_def pf_exec_def
       split: prod.splits)

lemma run_calls_pf:
  "list_all is_command cs \<Longrightarrow>
   (fst (run_calls (pf_backend pr) cs w) = Inr ()) = (pf_run cs (host w) \<noteq> None)
   \<and> (fst (run_calls (pf_backend pr) cs w) = Inr ()
        \<longrightarrow> pf_run cs (host w) = Some (host (snd (run_calls (pf_backend pr) cs w))))"
proof (induction cs arbitrary: w)
  case Nil
  then show ?case by (simp add: preturn_def)
next
  case (Cons c cs)
  then have c: "is_command c" and cs: "list_all is_command cs" by simp_all
  define ok where "ok = fst (pf_exec c (host w))"
  define w1 where "w1 = w\<lparr>host := snd (pf_exec c (host w)), issued := issued w @ [(c, ok)]\<rparr>"
  have e: "exec_call (pf_backend pr) c w = (if ok then Inr () else Inl (Fatal c), w1)"
    by (simp add: exec_call_pf [OF c] ok_def w1_def)
  have h: "host w1 = snd (pf_exec c (host w))" by (simp add: w1_def)
  show ?case
  proof (cases ok)
    case True
    with e have r: "run_calls (pf_backend pr) (c # cs) w = run_calls (pf_backend pr) cs w1"
      by (simp add: pseq_apply)
    from True have p: "pf_run (c # cs) (host w) = pf_run cs (host w1)" by (simp add: ok_def h)
    from Cons.IH [OF cs, of w1] show ?thesis unfolding r p .
  next
    case False
    with e have "fst (run_calls (pf_backend pr) (c # cs) w) = Inl (Fatal c)"
      by (simp add: pseq_apply)
    moreover from False have "pf_run (c # cs) (host w) = None" by (simp add: ok_def)
    ultimately show ?thesis by simp
  qed
qed

lemma run_nonfatal_pf:
  "list_all is_command cs \<Longrightarrow>
   fst (run_nonfatal (pf_backend pr) cs w) = Inr ()
   \<and> host (snd (run_nonfatal (pf_backend pr) cs w)) = pf_try cs (host w)"
proof (induction cs arbitrary: w)
  case Nil
  then show ?case by (simp add: preturn_def)
next
  case (Cons c cs)
  then have c: "is_command c" and cs: "list_all is_command cs" by simp_all
  define ok where "ok = fst (pf_exec c (host w))"
  define w1 where "w1 = w\<lparr>host := snd (pf_exec c (host w)), issued := issued w @ [(c, ok)]\<rparr>"
  have e: "nonfatal (exec_call (pf_backend pr) c) w = (Inr (), w1)"
    by (simp add: exec_call_pf [OF c] ok_def w1_def nonfatal_def try_except_def preturn_def)
  have h: "host w1 = snd (pf_exec c (host w))" by (simp add: w1_def)
  from e have r: "run_nonfatal (pf_backend pr) (c # cs) w = run_nonfatal (pf_backend pr) cs w1"
    by (simp add: pseq_apply)
  have p: "pf_try (c # cs) (host w) = pf_try cs (host w1)" by (simp add: h)
  from Cons.IH [OF cs, of w1] show ?case unfolding r p .
qed

lemma flush_conntrack_pf:
  "host (snd (flush_conntrack (pf_backend pr) w)) = host w
   \<and> fst (flush_conntrack (pf_backend pr) w) = fst (flush_conntrack (pf_backend pr) w')"
  by (cases pr)
     (simp_all add: flush_conntrack_def check_output_def try_except_def pbind_def preturn_def
        praise_def str_utf8_def debug2_def pf_backend_def)

lemma pf_exec_new:
  "pf_exec (Ipt f t [''-N'', c]) s = (if s (t, c) = None then (True, s((t, c) \<mapsto> [])) else (False, s))"
  by (simp add: pf_exec_def pf_command_def split: option.splits)

lemma pf_exec_flush:
  "pf_exec (Ipt f t [''-F'', c]) s =
     (case s (t, c) of None \<Rightarrow> (False, s) | Some rs \<Rightarrow> (True, s((t, c) \<mapsto> [])))"
  by (simp add: pf_exec_def pf_command_def split: option.splits)

lemma pf_exec_delete_chain:
  "pf_exec (Ipt f t [''-X'', c]) s =
     (case s (t, c) of None \<Rightarrow> (False, s)
      | Some rs \<Rightarrow> if rs = [] then (True, s((t, c) := None)) else (False, s))"
  by (simp add: pf_exec_def pf_command_def split: option.splits)

lemma pf_exec_insert:
  "pf_exec (Ipt f t (''-I'' # c # ''1'' # spec)) s =
     (case s (t, c) of None \<Rightarrow> (False, s) | Some rs \<Rightarrow> (True, s((t, c) \<mapsto> (False, spec) # rs)))"
  by (simp add: pf_exec_def pf_command_def split: option.splits)

lemma pf_exec_remove:
  "pf_exec (Ipt f t (''-D'' # c # spec)) s =
     (case s (t, c) of None \<Rightarrow> (False, s)
      | Some rs \<Rightarrow> if (False, spec) \<in> set rs then (True, s((t, c) \<mapsto> remove1 (False, spec) rs))
                   else (False, s))"
  by (simp add: pf_exec_def pf_command_def split: option.splits)

lemma pf_exec_append:
  "appends_to c x \<Longrightarrow> in_table t x \<Longrightarrow> s (t, c) = Some rs \<Longrightarrow>
   \<exists>r. pf_exec x s = (True, s((t, c) \<mapsto> rs @ [r]))"
proof (cases x)
  case (Ipt f t' args)
  assume a: "appends_to c x" "in_table t x" "s (t, c) = Some rs"
  with Ipt have "take 2 args = [''-A'', c]" and t: "t' = t" by simp_all
  from take_two [OF this(1)] t obtain spec where "args = ''-A'' # c # spec" "t' = t" by blast
  with Ipt a show ?thesis by (force simp: pf_exec_def pf_command_def)
next
  case (Ipt_ttl f t' args)
  assume a: "appends_to c x" "in_table t x" "s (t, c) = Some rs"
  with Ipt_ttl have "take 2 args = [''-A'', c]" and t: "t' = t" by simp_all
  from take_two [OF this(1)] t obtain spec where "args = ''-A'' # c # spec" "t' = t" by blast
  with Ipt_ttl a show ?thesis by (force simp: pf_exec_def pf_command_def)
qed simp_all

lemma pf_run_appends:
  "list_all (\<lambda>x. appends_to c x \<and> in_table t x) cs \<Longrightarrow> s (t, c) = Some rs \<Longrightarrow>
   \<exists>rs'. pf_run cs s = Some (s((t, c) \<mapsto> rs'))"
proof (induction cs arbitrary: s rs)
  case Nil
  then have "pf_run [] s = Some (s((t, c) \<mapsto> rs))" by (simp add: map_upd_triv)
  then show ?case by blast
next
  case (Cons x cs)
  then have x: "appends_to c x" "in_table t x" and cs: "list_all (\<lambda>x. appends_to c x \<and> in_table t x) cs"
    by simp_all
  from pf_exec_append [of c x t s rs, OF x(1) x(2) Cons.prems(2)] obtain r where
    r: "pf_exec x s = (True, s((t, c) \<mapsto> rs @ [r]))" by blast
  have "(s((t, c) \<mapsto> rs @ [r])) (t, c) = Some (rs @ [r])" by simp
  from Cons.IH [of "s((t, c) \<mapsto> rs @ [r])" "rs @ [r]", OF cs this] obtain rs' where
    "pf_run cs (s((t, c) \<mapsto> rs @ [r])) = Some ((s((t, c) \<mapsto> rs @ [r]))((t, c) \<mapsto> rs'))"
    by blast
  with r have "pf_run (x # cs) s = Some (s((t, c) \<mapsto> rs'))" by simp
  then show ?case by blast
qed

lemma pf_run_append:
  "pf_run (xs @ ys) s = (case pf_run xs s of None \<Rightarrow> None | Some s' \<Rightarrow> pf_run ys s')"
  by (induction xs arbitrary: s) simp_all

lemma chain_rules_appends:
  "list_all (\<lambda>x. appends_to (chain_name port) x \<and> in_table ''nat'' x)
     (chain_rules weight port dnsport nslist family subnets)"
  by (auto simp: chain_rules_def ttl_rule_def local_rule_def llmnr_rule_def list_all_iff
        dns_rule_def subnet_rule_def split: prod.splits)

lemma chain_name_not_builtin [simp]:
  "chain_name port \<noteq> ''OUTPUT''" "chain_name port \<noteq> ''PREROUTING''"
  "''OUTPUT'' \<noteq> chain_name port" "''PREROUTING'' \<noteq> chain_name port"
  by (simp_all add: chain_name_def)

lemmas pf_exec_simps = pf_exec_new pf_exec_flush pf_exec_delete_chain pf_exec_insert pf_exec_remove

lemma install_head_none:
  assumes "pf_run [Ipt f ''nat'' [''-N'', chain_name port], Ipt f ''nat'' [''-F'', chain_name port],
                   Ipt f ''nat'' ([''-I'', ''OUTPUT'', ''1''] @ e),
                   Ipt f ''nat'' ([''-I'', ''PREROUTING'', ''1''] @ e)] s = Some s'"
  shows "\<exists>ou pr. s (''nat'', chain_name port) = None \<and> s (''nat'', ''OUTPUT'') = Some ou
           \<and> s (''nat'', ''PREROUTING'') = Some pr
           \<and> s' = s((''nat'', chain_name port) \<mapsto> [], (''nat'', ''OUTPUT'') \<mapsto> (False, e) # ou,
                    (''nat'', ''PREROUTING'') \<mapsto> (False, e) # pr)"
  using assms
  by (auto simp: pf_exec_simps split: if_splits option.splits)

lemma install_head_some:
  assumes "pf_run [Ipt f ''nat'' [''-N'', chain_name port], Ipt f ''nat'' [''-F'', chain_name port],
                   Ipt f ''mangle'' ([''-I'', ''OUTPUT'', ''1''] @ m),
                   Ipt f ''nat'' ([''-I'', ''OUTPUT'', ''1''] @ e),
                   Ipt f ''nat'' ([''-I'', ''PREROUTING'', ''1''] @ e)] s = Some s'"
  shows "\<exists>ma ou pr. s (''nat'', chain_name port) = None \<and> s (''mangle'', ''OUTPUT'') = Some ma
           \<and> s (''nat'', ''OUTPUT'') = Some ou \<and> s (''nat'', ''PREROUTING'') = Some pr
           \<and> s' = s((''nat'', chain_name port) \<mapsto> [], (''mangle'', ''OUTPUT'') \<mapsto> (False, m) # ma,
                    (''nat'', ''OUTPUT'') \<mapsto> (False, e) # ou,
                    (''nat'', ''PREROUTING'') \<mapsto> (False, e) # pr)"
  using assms
  by (auto simp: pf_exec_simps split: if_splits option.splits)

lemma pf_restore_after_install:
  assumes "pf_run (install_calls weight port dnsport nslist AF_INET subnets user) s = Some s1"
  shows "pf_restore port user s1 = s"
proof (cases user)
  case None
  define hd_calls where "hd_calls =
      [Ipt AF_INET ''nat'' [''-N'', chain_name port], Ipt AF_INET ''nat'' [''-F'', chain_name port],
       Ipt AF_INET ''nat'' ([''-I'', ''OUTPUT'', ''1''] @ entry_spec port None),
       Ipt AF_INET ''nat'' ([''-I'', ''PREROUTING'', ''1''] @ entry_spec port None)]"
  have "install_calls weight port dnsport nslist AF_INET subnets user
        = hd_calls @ chain_rules weight port dnsport nslist AF_INET subnets"
    using None by (simp add: install_calls_def hd_calls_def)
  with assms obtain s' where h: "pf_run hd_calls s = Some s'"
    and b: "pf_run (chain_rules weight port dnsport nslist AF_INET subnets) s' = Some s1"
    by (auto simp: pf_run_append split: option.splits)
  note h = h [unfolded hd_calls_def]
  from install_head_none [OF h] obtain ou pr where
    s: "s (''nat'', chain_name port) = None" "s (''nat'', ''OUTPUT'') = Some ou"
       "s (''nat'', ''PREROUTING'') = Some pr"
    and s': "s' = s((''nat'', chain_name port) \<mapsto> [],
                    (''nat'', ''OUTPUT'') \<mapsto> (False, entry_spec port None) # ou,
                    (''nat'', ''PREROUTING'') \<mapsto> (False, entry_spec port None) # pr)"
    by blast
  from s' have "s' (''nat'', chain_name port) = Some []" by simp
  from pf_run_appends [of "chain_name port" "''nat''"
         "chain_rules weight port dnsport nslist AF_INET subnets" s' "[]",
         OF chain_rules_appends this] b
  obtain rs' where
    s1: "s1 = s'((''nat'', chain_name port) \<mapsto> rs')" by fastforce
  show ?thesis
    unfolding s1 s' using s None
    by (auto simp: pf_restore_def teardown_removals_def delete_chain_def pf_exec_simps fun_eq_iff)
next
  case (Some u)
  define hd_calls where "hd_calls =
      [Ipt AF_INET ''nat'' [''-N'', chain_name port], Ipt AF_INET ''nat'' [''-F'', chain_name port],
       Ipt AF_INET ''mangle'' ([''-I'', ''OUTPUT'', ''1''] @ mark_spec port u),
       Ipt AF_INET ''nat'' ([''-I'', ''OUTPUT'', ''1''] @ entry_spec port (Some u)),
       Ipt AF_INET ''nat'' ([''-I'', ''PREROUTING'', ''1''] @ entry_spec port (Some u))]"
  have "install_calls weight port dnsport nslist AF_INET subnets user
        = hd_calls @ chain_rules weight port dnsport nslist AF_INET subnets"
    using Some by (simp add: install_calls_def hd_calls_def)
  with assms obtain s' where h: "pf_run hd_calls s = Some s'"
    and b: "pf_run (chain_rules weight port dnsport nslist AF_INET subnets) s' = Some s1"
    by (auto simp: pf_run_append split: option.splits)
  note h = h [unfolded hd_calls_def]
  from install_head_some [OF h] obtain ma ou pr where
    s: "s (''nat'', chain_name port) = None" "s (''mangle'', ''OUTPUT'') = Some ma"
       "s (''nat'', ''OUTPUT'') = Some ou" "s (''nat'', ''PREROUTING'') = Some pr"
    and s': "s' = s((''nat'', chain_name port) \<mapsto> [],
                    (''mangle'', ''OUTPUT'') \<mapsto> (False, mark_spec port u) # ma,
                    (''nat'', ''OUTPUT'') \<mapsto> (False, entry_spec port (Some u)) # ou,
                    (''nat'', ''PREROUTING'') \<mapsto> (False, entry_spec port (Some u)) # pr)"
    by blast
  from s' have "s' (''nat'', chain_name port) = Some []" by simp
  from pf_run_appends [of "chain_name port" "''nat''"
         "chain_rules weight port dnsport nslist AF_INET subnets" s' "[]",
         OF chain_rules_appends this] b
  obtain rs' where
    s1: "s1 = s'((''nat'', chain_name port) \<mapsto> rs')" by fastforce
  show ?thesis
    unfolding s1 s' using s Some
    by (auto simp: pf_restore_def teardown_removals_def delete_chain_def pf_exec_simps fun_eq_iff)
qed

lemma pf_try_removals_chain:
  assumes "s (''nat'', chain_name port) \<noteq> None"
  shows "(pf_try (teardown_removals port AF_INET user) s) (''nat'', chain_name port) = Some []"
  using assms
  by (cases user)
     (auto simp: teardown_removals_def pf_exec_simps entry_spec_def mark_spec_def
        split: option.splits)

lemma restore_firewall_pf:
  "fst (restore_firewall (pf_backend pr) port AF_INET False user w) = Inr ()
   \<and> host (snd (restore_firewall (pf_backend pr) port AF_INET False user w))
     = pf_restore port user (host w)"
proof -
  define ex where "ex = (host w (''nat'', chain_name port) \<noteq> None)"
  define w0 where "w0 = w\<lparr>issued := issued w @ [(Ipt_chain_exists AF_INET ''nat'' (chain_name port), ex)]\<rparr>"
  have q: "ipt_chain_exists (pf_backend pr) AF_INET ''nat'' (chain_name port) w = (Inr ex, w0)"
    by (simp add: ipt_chain_exists_def pf_backend_def ex_def w0_def Let_def)
  have h0: "host w0 = host w" by (simp add: w0_def)
  show ?thesis
  proof (cases ex)
    case False
    with q h0 show ?thesis
      by (simp add: restore_firewall_plan pbind_def preturn_def pf_restore_def ex_def)
  next
    case True
    define w1 where "w1 = snd (run_nonfatal (pf_backend pr) (teardown_removals port AF_INET user) w0)"
    from run_nonfatal_pf [OF teardown_removals_commands, of pr port AF_INET user w0]
    have r: "run_nonfatal (pf_backend pr) (teardown_removals port AF_INET user) w0 = (Inr (), w1)"
      and h1: "host w1 = pf_try (teardown_removals port AF_INET user) (host w)"
      by (simp_all add: w1_def h0 prod_eq_iff)
    from True have "host w (''nat'', chain_name port) \<noteq> None" by (simp add: ex_def)
    from pf_try_removals_chain [of "host w" port user, OF this] h1
    have e: "host w1 (''nat'', chain_name port) = Some []" by simp
    have c: "is_command (delete_chain port AF_INET)" by (simp add: delete_chain_def)
    from e have ok: "fst (pf_exec (delete_chain port AF_INET) (host w1))"
      by (simp add: delete_chain_def pf_exec_simps)
    from True q r ok show ?thesis
      by (simp add: restore_firewall_plan pbind_def pseq_apply exec_call_pf [OF c] pf_restore_def
            ex_def h1)
  qed
qed

lemma setup_firewall_pf:
  assumes "fst (setup_firewall (pf_backend pr) weight port dnsport nslist AF_INET subnets False user w)
           = Inr ()"
  shows "pf_run (install_calls weight port dnsport nslist AF_INET subnets user)
           (pf_restore port user (host w))
         = Some (host (snd (setup_firewall (pf_backend pr) weight port dnsport nslist AF_INET subnets
                             False user w)))
       \<and> fst (flush_conntrack (pf_backend pr) w') = Inr ()"
proof -
  obtain r0 w0 where r: "restore_firewall (pf_backend pr) port AF_INET False user w = (r0, w0)"
    by fastforce
  with restore_firewall_pf [of pr port user w]
  have r0: "r0 = Inr ()" and h0: "host w0 = pf_restore port user (host w)" by simp_all
  obtain r1 w1 where i: "run_calls (pf_backend pr)
      (install_calls weight port dnsport nslist AF_INET subnets user) w0 = (r1, w1)" by fastforce
  from assms r r0 i have r1: "r1 = Inr ()"
    by (cases r1) (simp_all add: setup_firewall_plan pseq_apply)
  from assms r r0 i r1 have f: "fst (flush_conntrack (pf_backend pr) w1) = Inr ()"
    by (simp add: setup_firewall_plan pseq_apply)
  from r r0 i r1 have s: "setup_firewall (pf_backend pr) weight port dnsport nslist AF_INET subnets
      False user w = flush_conntrack (pf_backend pr) w1"
    by (simp add: setup_firewall_plan pseq_apply)
  from run_calls_pf [OF install_calls_commands, of pr weight port dnsport nslist AF_INET subnets user w0]
    i r1 h0
  have "pf_run (install_calls weight port dnsport nslist AF_INET subnets user)
           (pf_restore port user (host w)) = Some (host w1)" by simp
  with s f flush_conntrack_pf [of pr w1 w'] show ?thesis by simp
qed

lemma setup_firewall_pf_ok:
  assumes "pf_run (install_calls weight port dnsport nslist AF_INET subnets user)
             (pf_restore port user (host w)) = Some s1"
    and "fst (flush_conntrack (pf_backend pr) w') = Inr ()"
  shows "fst (setup_firewall (pf_backend pr) weight port dnsport nslist AF_INET subnets False user w)
           = Inr ()
       \<and> host (snd (setup_firewall (pf_backend pr) weight port dnsport nslist AF_INET subnets False
                       user w)) = s1"
proof -
  obtain r0 w0 where r: "restore_firewall (pf_backend pr) port AF_INET False user w = (r0, w0)"
    by fastforce
  with restore_firewall_pf [of pr port user w]
  have r0: "r0 = Inr ()" and h0: "host w0 = pf_restore port user (host w)" by simp_all
  obtain r1 w1 where i: "run_calls (pf_backend pr)
      (install_calls weight port dnsport nslist AF_INET subnets user) w0 = (r1, w1)" by fastforce
  from run_calls_pf [OF install_calls_commands, of pr weight port dnsport nslist AF_INET subnets user w0]
    i h0 assms(1)
  have r1: "r1 = Inr ()" and h1: "host w1 = s1" by simp_all
  from r r0 i r1 have s: "setup_firewall (pf_backend pr) weight port dnsport nslist AF_INET subnets
      False user w = flush_conntrack (pf_backend pr) w1"
    by (simp add: setup_firewall_plan pseq_apply)
  from flush_conntrack_pf [of pr w1 w'] assms(2) h1 show ?thesis unfolding s by simp
qed

lemma calls_issued_pseq_prefix:
  assumes p: "traces p w cs" and q: "\<And>w'. traces q w' ds"
  shows "prefix (calls_issued p w) (calls_issued (pseq p q) w)"
proof -
  from p obtain es where es: "issued (snd (p w)) = issued w @ es" by (auto simp: traces_def)
  obtain r w1 where pw: "p w = (r, w1)" by fastforce
  show ?thesis
  proof (cases r)
    case (Inl e)
    with pw have "pseq p q w = (Inl e, w1)" by (simp add: pseq_apply)
    with pw show ?thesis by (simp add: calls_issued_def new_events_def)
  next
    case (Inr x)
    with pw have pq: "pseq p q w = q w1" by (simp add: pseq_apply)
    from q [of w1] obtain fs where "issued (snd (q w1)) = issued w1 @ fs" by (auto simp: traces_def)
    with es pw pq show ?thesis by (simp add: calls_issued_def new_events_def)
  qed
qed

lemma teardown_first:
  "prefix (calls_issued (restore_firewall B port family udp user) w)
     (calls_issued (setup_firewall B weight port dnsport nslist family subnets udp user) w)"
proof -
  consider (bad) "family \<noteq> AF_INET \<or> udp" | (good) "family = AF_INET" "udp = False" by blast
  then show ?thesis
  proof cases
    case bad
    then show ?thesis
      by (simp add: setup_firewall_invalid restore_firewall_invalid calls_issued_unchanged)
  next
    case good
    have "\<And>w'. traces (pseq (run_calls B (install_calls weight port dnsport nslist AF_INET subnets user))
             (flush_conntrack B)) w'
            (install_calls weight port dnsport nslist AF_INET subnets user @ [conntrack_call])"
      by (intro traces_pseq traces_run_calls traces_flush_conntrack install_calls_commands)
    from calls_issued_pseq_prefix [OF traces_restore_firewall this]
    show ?thesis unfolding good setup_firewall_plan .
  qed
qed

lemma pf_example_ok:
  "fst (setup_firewall (pf_backend (Exited_nonzero 1 [])) (\<lambda>(f, swidth, r). swidth) 12300 12301
          [(AF_INET, ''10.0.0.1'')] AF_INET [(AF_INET, 8, False, ''10.0.0.0'', 0, 0)] False
          (Some (Uid 1000)) (start pf_builtin)) = Inr ()"
  by (simp add: setup_firewall_def restore_firewall_def sorted_reverse_def str_int_12300
        str_int_12301 run_defs pf_backend_def pf_command_def pf_builtin_def)

lemma pf_example_chain:
  "host (snd (setup_firewall (pf_backend (Exited_nonzero 1 [])) (\<lambda>(f, swidth, r). swidth) 12300 12301
          [(AF_INET, ''10.0.0.1'')] AF_INET [(AF_INET, 8, False, ''10.0.0.0'', 0, 0)] False
          None (start pf_builtin))) (''nat'', ''sshuttle-12300'')
   = Some [(True, [''-j'', ''RETURN'', ''-m'', ''ttl'', ''--ttl'', ''63'']),
           (False, [''-j'', ''REDIRECT'', ''--dest'', ''10.0.0.1/32'', ''-p'', ''udp'', ''--dport'', ''53'',
                    ''--to-ports'', ''12301'']),
           (False, [''-j'', ''RETURN'', ''-m'', ''addrtype'', ''--dst-type'', ''LOCAL'']),
           (False, [''-j'', ''REDIRECT'', ''--dest'', ''10.0.0.0/8'', ''-p'', ''tcp'', ''--to-ports'', ''12300'']),
           (True, [''-j'', ''REDIRECT'', ''--dest'', ''224.0.0.252/32'', ''-p'', ''udp'', ''--dport'', ''5355'',
                   ''--to-ports'', ''12301''])]"
  by (simp add: setup_firewall_def restore_firewall_def sorted_reverse_def str_int_12300
        str_int_12301 run_defs pf_backend_def pf_command_def pf_builtin_def str_int_def str_nat.simps digit_char_def)

section \<open>The claims\<close>

text \<open>
  C1 (as amended). In \<^verbatim>\<open>restore_firewall\<close>, when the named chain exists, the
  removals of the Mark rule and of the \<^verbatim>\<open>OUTPUT\<close>/\<^verbatim>\<open>PREROUTING\<close> entry
  rules and the flush of the chain are all attempted and none of them is fatal, whatever
  their outcomes \<^term>\<open>flags\<close>; the deletion of the chain is the one fatal step: the
  call fails, with the error of that command, exactly when the deletion fails.
\<close>

theorem teardown_only_chain_delete_fatal:
  assumes "family = AF_INET" and "\<not> udp"
    and "query_chain B family ''nat'' (chain_name port) (host w)"
  shows "\<exists>flags ok.
           length flags = (case user of Some u \<Rightarrow> 4 | None \<Rightarrow> 3)
         \<and> new_events (restore_firewall B port family udp user) w =
             (Ipt_chain_exists family ''nat'' (chain_name port), True)
             # zip ((case user of
                       Some u \<Rightarrow>
                         [Ipt family ''mangle''
                            [''-D'', ''OUTPUT'', ''-m'', ''owner'', ''--uid-owner'', str_user u,
                             ''-j'', ''MARK'', ''--set-mark'', str_int port]]
                     | None \<Rightarrow> [])
                    @ [Ipt family ''nat'' ([''-D'', ''OUTPUT''] @ entry_spec port user),
                       Ipt family ''nat'' ([''-D'', ''PREROUTING''] @ entry_spec port user),
                       Ipt family ''nat'' [''-F'', chain_name port]])
                   flags
             @ [(Ipt family ''nat'' [''-X'', chain_name port], ok)]
         \<and> fst (restore_firewall B port family udp user w) =
             (if ok then Inr () else Inl (Fatal (Ipt family ''nat'' [''-X'', chain_name port])))"
proof -
  from assms have q: "query_chain B AF_INET ''nat'' (chain_name port) (host w)" by simp
  from restore_firewall_present [OF q, of user] obtain flags ok w' where
    "length flags = length (teardown_removals port AF_INET user)"
    "restore_firewall B port AF_INET False user w =
        (if ok then Inr () else Inl (Fatal (delete_chain port AF_INET)), w')"
    "issued w' = issued w @ (Ipt_chain_exists AF_INET ''nat'' (chain_name port), True)
         # zip (teardown_removals port AF_INET user) flags @ [(delete_chain port AF_INET, ok)]"
    by blast
  with assms(1,2) have
    "length flags = (case user of Some u \<Rightarrow> 4 | None \<Rightarrow> 3)
     \<and> new_events (restore_firewall B port family udp user) w =
             (Ipt_chain_exists family ''nat'' (chain_name port), True)
             # zip ((case user of
                       Some u \<Rightarrow>
                         [Ipt family ''mangle''
                            [''-D'', ''OUTPUT'', ''-m'', ''owner'', ''--uid-owner'', str_user u,
                             ''-j'', ''MARK'', ''--set-mark'', str_int port]]
                     | None \<Rightarrow> [])
                    @ [Ipt family ''nat'' ([''-D'', ''OUTPUT''] @ entry_spec port user),
                       Ipt family ''nat'' ([''-D'', ''PREROUTING''] @ entry_spec port user),
                       Ipt family ''nat'' [''-F'', chain_name port]])
                   flags
             @ [(Ipt family ''nat'' [''-X'', chain_name port], ok)]
     \<and> fst (restore_firewall B port family udp user w) =
             (if ok then Inr () else Inl (Fatal (Ipt family ''nat'' [''-X'', chain_name port])))"
    by (cases user)
       (simp_all add: new_events_def teardown_removals_def delete_chain_def mark_spec_def)
  then show ?thesis by blast
qed

text \<open>
  The theorem at work: the chain exists, a user is set, and every command is refused; all
  five commands are issued and the error is the one of the deletion.
\<close>

theorem teardown_only_chain_delete_fatal_witness:
  "query_chain (scripted True (Returned [])) AF_INET ''nat'' (chain_name 12300)
     (host (start [False, False, False, False, False]))
   \<and> (\<exists>flags ok.
         length flags = 4
       \<and> new_events (restore_firewall (scripted True (Returned [])) 12300 AF_INET False (Some (Uid 1000)))
            (start [False, False, False, False, False]) =
           (Ipt_chain_exists AF_INET ''nat'' (chain_name 12300), True)
           # zip [Ipt AF_INET ''mangle''
                    [''-D'', ''OUTPUT'', ''-m'', ''owner'', ''--uid-owner'', str_int 1000,
                     ''-j'', ''MARK'', ''--set-mark'', str_int 12300],
                  Ipt AF_INET ''nat'' ([''-D'', ''OUTPUT''] @ entry_spec 12300 (Some (Uid 1000))),
                  Ipt AF_INET ''nat'' ([''-D'', ''PREROUTING''] @ entry_spec 12300 (Some (Uid 1000))),
                  Ipt AF_INET ''nat'' [''-F'', chain_name 12300]]
                 flags
           @ [(Ipt AF_INET ''nat'' [''-X'', chain_name 12300], ok)]
       \<and> fst (restore_firewall (scripted True (Returned [])) 12300 AF_INET False (Some (Uid 1000))
            (start [False, False, False, False, False])) =
           (if ok then Inr () else Inl (Fatal (Ipt AF_INET ''nat'' [''-X'', chain_name 12300]))))"
  using teardown_only_chain_delete_fatal
          [of AF_INET False "scripted True (Returned [])" 12300
              "start [False, False, False, False, False]" "Some (Uid 1000)"]
  by (simp add: scripted_def)

text \<open>
  C1 as stated has the flush of the chain fatal. The source wraps it in
  \<^verbatim>\<open>nonfatal\<close> (line 151): with the two removals and the deletion succeeding and
  the flush refused, \<^verbatim>\<open>restore_firewall\<close> returns normally.
\<close>

theorem teardown_flush_failure_swallowed:
  "restore_firewall (scripted True (Returned [])) 12300 AF_INET False None
     (start [True, True, False, True])
   = (Inr (), \<lparr>host = [], issued =
        [(Ipt_chain_exists AF_INET ''nat'' ''sshuttle-12300'', True),
         (Ipt AF_INET ''nat'' [''-D'', ''OUTPUT'', ''-j'', ''sshuttle-12300''], True),
         (Ipt AF_INET ''nat'' [''-D'', ''PREROUTING'', ''-j'', ''sshuttle-12300''], True),
         (Ipt AF_INET ''nat'' [''-F'', ''sshuttle-12300''], False),
         (Ipt AF_INET ''nat'' [''-X'', ''sshuttle-12300''], True)]\<rparr>)"
  by (simp add: restore_firewall_def str_int_12300 run_defs)



text \<open>
  C3. \<^verbatim>\<open>setup_firewall\<close> performs the whole teardown as its first action, before
  it installs anything: on every host the calls of \<^verbatim>\<open>restore_firewall\<close> are an
  initial segment of the calls of \<^verbatim>\<open>setup_firewall\<close>. On the packet filter,
  when a setup has returned normally, a second setup with the same policy returns
  normally too and leaves the packet filter exactly as the first one left it: the same
  chains with the same rules, none of them doubled.
\<close>

theorem setup_twice_same_rules:
  assumes "setup_firewall (pf_backend pr) weight port dnsport nslist family subnets udp user w
           = (Inr (), w1)"
  shows "fst (setup_firewall (pf_backend pr) weight port dnsport nslist family subnets udp user w1)
           = Inr ()
       \<and> host (snd (setup_firewall (pf_backend pr) weight port dnsport nslist family subnets udp
                       user w1)) = host w1
       \<and> prefix (calls_issued (restore_firewall B port family udp user) w0)
           (calls_issued (setup_firewall B weight port dnsport nslist family subnets udp user) w0)"
proof -
  from assms have ok: "fst (setup_firewall (pf_backend pr) weight port dnsport nslist family subnets
      udp user w) = Inr ()" by simp
  from setup_firewall_valid [OF ok] have v: "family = AF_INET" "udp = False" by simp_all
  from setup_firewall_pf [OF ok [unfolded v], of w1] assms
  have i: "pf_run (install_calls weight port dnsport nslist AF_INET subnets user)
             (pf_restore port user (host w)) = Some (host w1)"
    and f: "fst (flush_conntrack (pf_backend pr) w1) = Inr ()"
    by (simp_all add: v)
  from pf_restore_after_install [OF i]
  have "pf_restore port user (host w1) = pf_restore port user (host w)" .
  with i have "pf_run (install_calls weight port dnsport nslist AF_INET subnets user)
             (pf_restore port user (host w1)) = Some (host w1)" by simp
  from setup_firewall_pf_ok [OF this f] teardown_first [of B port family udp user w0]
  show ?thesis unfolding v by simp
qed

text \<open>
  A setup with a user, a nameserver and a subnet on a packet filter that has only the
  built-in lists, and the same setup again.
\<close>

theorem setup_twice_same_rules_witness:
  "fst (setup_firewall (pf_backend (Exited_nonzero 1 [])) (\<lambda>(f, swidth, r). swidth) 12300 12301
          [(AF_INET, ''10.0.0.1'')] AF_INET [(AF_INET, 8, False, ''10.0.0.0'', 0, 0)] False
          (Some (Uid 1000)) (start pf_builtin)) = Inr ()
   \<and> fst (setup_firewall (pf_backend (Exited_nonzero 1 [])) (\<lambda>(f, swidth, r). swidth) 12300 12301
          [(AF_INET, ''10.0.0.1'')] AF_INET [(AF_INET, 8, False, ''10.0.0.0'', 0, 0)] False
          (Some (Uid 1000))
          (snd (setup_firewall (pf_backend (Exited_nonzero 1 [])) (\<lambda>(f, swidth, r). swidth) 12300 12301
                  [(AF_INET, ''10.0.0.1'')] AF_INET [(AF_INET, 8, False, ''10.0.0.0'', 0, 0)] False
                  (Some (Uid 1000)) (start pf_builtin)))) = Inr ()
   \<and> host (snd (setup_firewall (pf_backend (Exited_nonzero 1 [])) (\<lambda>(f, swidth, r). swidth) 12300 12301
          [(AF_INET, ''10.0.0.1'')] AF_INET [(AF_INET, 8, False, ''10.0.0.0'', 0, 0)] False
          (Some (Uid 1000))
          (snd (setup_firewall (pf_backend (Exited_nonzero 1 [])) (\<lambda>(f, swidth, r). swidth) 12300 12301
                  [(AF_INET, ''10.0.0.1'')] AF_INET [(AF_INET, 8, False, ''10.0.0.0'', 0, 0)] False
                  (Some (Uid 1000)) (start pf_builtin)))))
     = host (snd (setup_firewall (pf_backend (Exited_nonzero 1 [])) (\<lambda>(f, swidth, r). swidth) 12300 12301
                  [(AF_INET, ''10.0.0.1'')] AF_INET [(AF_INET, 8, False, ''10.0.0.0'', 0, 0)] False
                  (Some (Uid 1000)) (start pf_builtin)))"
proof -
  define w1 where "w1 = snd (setup_firewall (pf_backend (Exited_nonzero 1 [])) (\<lambda>(f, swidth, r). swidth)
      12300 12301 [(AF_INET, ''10.0.0.1'')] AF_INET [(AF_INET, 8, False, ''10.0.0.0'', 0, 0)] False
      (Some (Uid 1000)) (start pf_builtin))"
  from pf_example_ok have e: "setup_firewall (pf_backend (Exited_nonzero 1 [])) (\<lambda>(f, swidth, r). swidth)
      12300 12301 [(AF_INET, ''10.0.0.1'')] AF_INET [(AF_INET, 8, False, ''10.0.0.0'', 0, 0)] False
      (Some (Uid 1000)) (start pf_builtin) = (Inr (), w1)"
    by (simp add: w1_def prod_eq_iff)
  from setup_twice_same_rules [OF e, of "pf_backend (Exited_nonzero 1 [])" "start pf_builtin"] pf_example_ok
  show ?thesis unfolding w1_def by blast
qed

text \<open>
  C4. If the address family is not the supported IPv4 family, or UDP is requested, then
  both \<^verbatim>\<open>setup_firewall\<close> and \<^verbatim>\<open>restore_firewall\<close> fail at once with the
  error that names the violated constraint (the family check comes first), and the world
  is left as it was: no external call is issued.
\<close>

theorem unsupported_configuration_rejected:
  assumes "family \<noteq> AF_INET \<or> udp"
  shows "setup_firewall B weight port dnsport nslist family subnets udp user w =
           (Inl (if family \<noteq> AF_INET then Unsupported_family family else Unsupported_udp), w)
       \<and> restore_firewall B port family udp user w =
           (Inl (if family \<noteq> AF_INET then Unsupported_family family else Unsupported_udp), w)
       \<and> calls_issued (setup_firewall B weight port dnsport nslist family subnets udp user) w = []
       \<and> calls_issued (restore_firewall B port family udp user) w = []"
  using assms
  by (simp add: setup_firewall_invalid restore_firewall_invalid calls_issued_unchanged)

theorem unsupported_configuration_rejected_witness:
  "setup_firewall (scripted True (Returned [])) (\<lambda>s. 0::int) 12300 12301 [] 10 [] False None
       (start [])
     = (Inl (Unsupported_family 10), start [])
   \<and> restore_firewall (scripted True (Returned [])) 12300 10 False None (start [])
     = (Inl (Unsupported_family 10), start [])
   \<and> setup_firewall (scripted True (Returned [])) (\<lambda>s. 0::int) 12300 12301 [] AF_INET [] True None
       (start [])
     = (Inl Unsupported_udp, start [])
   \<and> restore_firewall (scripted True (Returned [])) 12300 AF_INET True None (start [])
     = (Inl Unsupported_udp, start [])"
  using unsupported_configuration_rejected
          [of 10 False "scripted True (Returned [])" "\<lambda>s. 0::int" 12300 12301 "[]" "[]" None "start []"]
        unsupported_configuration_rejected
          [of AF_INET True "scripted True (Returned [])" "\<lambda>s. 0::int" 12300 12301 "[]" "[]" None "start []"]
  by (simp add: AF_INET_def)

text \<open>
  C5 (as amended). For every policy, a failure of the connection-tracking flush at the
  end of \<^verbatim>\<open>setup_firewall\<close> that is reported as a non-zero exit status, with
  output that is text, is swallowed: on a host whose flush command always exits (with any
  status) \<^verbatim>\<open>setup_firewall\<close> returns what it returns on the host that differs only
  in that the flush succeeds, and it leaves the same host state.
\<close>

theorem conntrack_exit_status_swallowed:
  assumes "conntrack_exits B"
  shows "fst (setup_firewall B weight port dnsport nslist family subnets udp user w)
         = fst (setup_firewall (conntrack_succeeding B) weight port dnsport nslist family subnets udp user w)
       \<and> host (snd (setup_firewall B weight port dnsport nslist family subnets udp user w))
         = host (snd (setup_firewall (conntrack_succeeding B) weight port dnsport nslist family subnets
                        udp user w))"
proof -
  consider (bad) "family \<noteq> AF_INET \<or> udp" | (good) "family = AF_INET" "\<not> udp" by blast
  then show ?thesis
  proof cases
    case bad
    then show ?thesis by (simp add: setup_firewall_invalid)
  next
    case good
    define before where "before = pseq (restore_firewall B port AF_INET False user)
       (run_calls B (install_calls weight port dnsport nslist AF_INET subnets user))"
    have s: "setup_firewall B weight port dnsport nslist family subnets udp user
             = pseq before (flush_conntrack B)"
      using good by (simp add: setup_firewall_plan before_def pseq_assoc)
    have s': "setup_firewall (conntrack_succeeding B) weight port dnsport nslist family subnets udp user
             = pseq before (flush_conntrack (conntrack_succeeding B))"
      using good by (simp add: setup_firewall_plan before_def pseq_assoc)
    obtain r w1 where b: "before w = (r, w1)" by fastforce
    show ?thesis
    proof (cases r)
      case (Inl e)
      with b show ?thesis unfolding s s' by (simp add: pseq_apply)
    next
      case (Inr u)
      with b flush_conntrack_soft [OF assms, of w1] show ?thesis
        unfolding s s' by (simp add: pseq_apply)
    qed
  qed
qed

text \<open>
  The theorem at work: the flush exits with status 1 ("no entries found"), and the setup
  returns normally.
\<close>

theorem conntrack_exit_status_swallowed_witness:
  "conntrack_exits (scripted False (Exited_nonzero 1 []))
   \<and> fst (setup_firewall (scripted False (Exited_nonzero 1 [])) (\<lambda>s. 0::int) 12300 12301 [] AF_INET []
             False None (start []))
     = fst (setup_firewall (conntrack_succeeding (scripted False (Exited_nonzero 1 []))) (\<lambda>s. 0::int)
             12300 12301 [] AF_INET [] False None (start []))
   \<and> host (snd (setup_firewall (scripted False (Exited_nonzero 1 [])) (\<lambda>s. 0::int) 12300 12301 []
             AF_INET [] False None (start [])))
     = host (snd (setup_firewall (conntrack_succeeding (scripted False (Exited_nonzero 1 [])))
             (\<lambda>s. 0::int) 12300 12301 [] AF_INET [] False None (start [])))
   \<and> fst (setup_firewall (scripted False (Exited_nonzero 1 [])) (\<lambda>s. 0::int) 12300 12301 [] AF_INET []
             False None (start [])) = Inr ()"
proof -
  have h: "conntrack_exits (scripted False (Exited_nonzero 1 []))"
    by (simp add: conntrack_exits_def scripted_def)
  have e: "fst (setup_firewall (scripted False (Exited_nonzero 1 [])) (\<lambda>s. 0::int) 12300 12301 [] AF_INET []
             False None (start [])) = Inr ()"
    by (simp add: setup_firewall_def restore_firewall_def sorted_reverse_def str_int_12300
        str_int_12301 run_defs)
  from h e conntrack_exit_status_swallowed [OF h, of "\<lambda>s. 0::int" 12300 12301 "[]" AF_INET "[]" False None "start []"]
  show ?thesis by blast
qed

text \<open>
  C5 as stated has the setup succeed however the flush fails. The source catches
  \<^verbatim>\<open>CalledProcessError\<close> only (line 113): when the \<^verbatim>\<open>conntrack\<close> program
  cannot be run at all, \<^verbatim>\<open>check_output\<close> raises \<^verbatim>\<open>OSError\<close>, which leaves
  \<^verbatim>\<open>setup_firewall\<close> although every packet-filter command has succeeded.
\<close>

theorem conntrack_not_runnable_surfaces:
  "fst (setup_firewall (scripted False Not_run) (\<lambda>s. 0::int) 12300 12301 [] AF_INET [] False None
          (start []))
   = Inl OSError"
  by (simp add: setup_firewall_def restore_firewall_def sorted_reverse_def str_int_12300
        str_int_12301 run_defs)

text \<open>
  C6. A \<^verbatim>\<open>setup_firewall\<close> that returns normally has issued one rule for TCP
  traffic per subnet entry, in the order of the entries sorted by descending weight (a
  rearrangement of the entries, with decreasing weights, equal weights in their original
  order): for an entry with \<^verbatim>\<open>exclude\<close> a return rule, otherwise a redirect to
  \<^verbatim>\<open>port\<close>, each matching TCP traffic to the entry's network and width, with the
  destination-port range attached exactly when the first port is not zero.
\<close>

theorem subnet_rules_in_descending_weight:
  assumes "fst (setup_firewall B weight port dnsport nslist family subnets udp user w) = Inr ()"
  shows "filter is_tcp_rule
           (calls_issued (setup_firewall B weight port dnsport nslist family subnets udp user) w)
         = map (\<lambda>(sfamily, swidth, sexclude, snet, fport, lport).
                  Ipt family ''nat''
                    ([''-A'', chain_name port, ''-j'', if sexclude then ''RETURN'' else ''REDIRECT'',
                      ''--dest'', snet @ ''/'' @ str_int swidth, ''-p'', ''tcp'']
                     @ (if fport \<noteq> 0 then [''--dport'', str_int fport @ '':'' @ str_int lport] else [])
                     @ (if sexclude then [] else [''--to-ports'', str_int port])))
             (sorted_reverse weight subnets)
       \<and> mset (sorted_reverse weight subnets) = mset subnets
       \<and> sorted (rev (map weight (sorted_reverse weight subnets)))
       \<and> filter (\<lambda>s. weight s = v) (sorted_reverse weight subnets) = filter (\<lambda>s. weight s = v) subnets"
proof -
  have "subnet_rule family port
        = (\<lambda>(sfamily, swidth, sexclude, snet, fport, lport).
                  Ipt family ''nat''
                    ([''-A'', chain_name port, ''-j'', if sexclude then ''RETURN'' else ''REDIRECT'',
                      ''--dest'', snet @ ''/'' @ str_int swidth, ''-p'', ''tcp'']
                     @ (if fport \<noteq> 0 then [''--dport'', str_int fport @ '':'' @ str_int lport] else [])
                     @ (if sexclude then [] else [''--to-ports'', str_int port])))"
    by (auto simp: fun_eq_iff subnet_rule_def port_range_def)
  with setup_firewall_ok_calls [OF assms] show ?thesis
    by (simp add: filter_tcp_setup_calls sorted_reverse_descending sorted_reverse_mset
          sorted_reverse_stable)
qed

text \<open>
  Two entries, weighed by their width: the excluded /24 with ports 1000 to 2000 comes
  before the /8 with all ports.
\<close>

theorem subnet_rules_in_descending_weight_witness:
  "fst (setup_firewall (scripted False (Returned [])) (\<lambda>(f, swidth, r). swidth) 12300 12301
          [] AF_INET
          [(AF_INET, 8, False, ''10.0.0.0'', 0, 0), (AF_INET, 24, True, ''10.1.1.0'', 1000, 2000)]
          False None (start [])) = Inr ()
   \<and> filter is_tcp_rule
        (calls_issued (setup_firewall (scripted False (Returned [])) (\<lambda>(f, swidth, r). swidth)
           12300 12301 [] AF_INET
           [(AF_INET, 8, False, ''10.0.0.0'', 0, 0), (AF_INET, 24, True, ''10.1.1.0'', 1000, 2000)]
           False None) (start []))
      = [Ipt AF_INET ''nat''
           [''-A'', ''sshuttle-12300'', ''-j'', ''RETURN'', ''--dest'', ''10.1.1.0/24'',
            ''-p'', ''tcp'', ''--dport'', ''1000:2000''],
         Ipt AF_INET ''nat''
           [''-A'', ''sshuttle-12300'', ''-j'', ''REDIRECT'', ''--dest'', ''10.0.0.0/8'',
            ''-p'', ''tcp'', ''--to-ports'', ''12300'']]"
proof -
  have n: "str_int 8 = ''8''" "str_int 24 = ''24''" "str_int 1000 = ''1000''" "str_int 2000 = ''2000''"
    by (simp_all add: str_int_def str_nat.simps digit_char_def)
  from subnet_rules_in_descending_weight [OF subnets_run_ok] subnets_run_ok
  show ?thesis
    by (simp add: sorted_reverse_def chain_name_def str_int_12300 n)
qed

text \<open>
  C7. For every policy, a \<^verbatim>\<open>setup_firewall\<close> that returns normally has issued a
  DNS redirect (UDP destination port 53 to the nameserver's address with mask 32, to
  \<^verbatim>\<open>dnsport\<close>) for exactly the nameserver entries whose family is the policy's, in
  their order; and in every run, failed or not, each DNS redirect that was issued belongs
  to an entry of the policy's family.
\<close>

theorem dns_rules_only_for_matching_family:
  "(fst (setup_firewall B weight port dnsport nslist family subnets udp user w) = Inr ()
      \<longrightarrow> filter is_dns_rule
            (calls_issued (setup_firewall B weight port dnsport nslist family subnets udp user) w)
          = map (\<lambda>(nsfamily, ip).
                   Ipt family ''nat''
                     [''-A'', chain_name port, ''-j'', ''REDIRECT'', ''--dest'', ip @ ''/32'',
                      ''-p'', ''udp'', ''--dport'', ''53'', ''--to-ports'', str_int dnsport])
              (filter (\<lambda>ns. fst ns = family) nslist))
   \<and> (\<forall>c \<in> set (filter is_dns_rule
                   (calls_issued (setup_firewall B weight port dnsport nslist family subnets udp user) w)).
        \<exists>ip. (family, ip) \<in> set nslist
           \<and> c = Ipt family ''nat''
                 [''-A'', chain_name port, ''-j'', ''REDIRECT'', ''--dest'', ip @ ''/32'',
                  ''-p'', ''udp'', ''--dport'', ''53'', ''--to-ports'', str_int dnsport])"
proof (intro conjI impI ballI)
  have d: "dns_rule family port dnsport
           = (\<lambda>(nsfamily, ip).
                   Ipt family ''nat''
                     [''-A'', chain_name port, ''-j'', ''REDIRECT'', ''--dest'', ip @ ''/32'',
                      ''-p'', ''udp'', ''--dport'', ''53'', ''--to-ports'', str_int dnsport])"
    by (auto simp: fun_eq_iff dns_rule_def)
  assume ok: "fst (setup_firewall B weight port dnsport nslist family subnets udp user w) = Inr ()"
  from setup_firewall_ok_calls [OF ok]
  show "filter is_dns_rule
            (calls_issued (setup_firewall B weight port dnsport nslist family subnets udp user) w)
          = map (\<lambda>(nsfamily, ip).
                   Ipt family ''nat''
                     [''-A'', chain_name port, ''-j'', ''REDIRECT'', ''--dest'', ip @ ''/32'',
                      ''-p'', ''udp'', ''--dport'', ''53'', ''--to-ports'', str_int dnsport])
              (filter (\<lambda>ns. fst ns = family) nslist)"
    by (simp add: filter_dns_setup_calls d)
next
  fix c
  assume c: "c \<in> set (filter is_dns_rule
                   (calls_issued (setup_firewall B weight port dnsport nslist family subnets udp user) w))"
  consider (bad) "family \<noteq> AF_INET \<or> udp" | (good) "family = AF_INET" by blast
  then show "\<exists>ip. (family, ip) \<in> set nslist
           \<and> c = Ipt family ''nat''
                 [''-A'', chain_name port, ''-j'', ''REDIRECT'', ''--dest'', ip @ ''/32'',
                  ''-p'', ''udp'', ''--dport'', ''53'', ''--to-ports'', str_int dnsport]"
  proof cases
    case bad
    with c show ?thesis by (simp add: setup_firewall_invalid calls_issued_unchanged)
  next
    case good
    from c have "c \<in> set (calls_issued (setup_firewall B weight port dnsport nslist family subnets udp user) w)"
      and d: "is_dns_rule c" by simp_all
    with set_mono_prefix [OF setup_firewall_calls_prefix, of B weight port dnsport nslist family subnets udp user w]
    have "c \<in> set (setup_calls (query_chain B AF_INET ''nat'' (chain_name port) (host w))
             weight port dnsport nslist AF_INET subnets user)" by blast
    with d have "c \<in> set (filter is_dns_rule (setup_calls (query_chain B AF_INET ''nat'' (chain_name port) (host w))
             weight port dnsport nslist AF_INET subnets user))" by simp
    with good show ?thesis by (auto simp: filter_dns_setup_calls dns_rule_def)
  qed
qed

text \<open>
  Three nameservers, the second of another family (10, \<^verbatim>\<open>AF_INET6\<close>): two rules.
\<close>

theorem dns_rules_only_for_matching_family_witness:
  "fst (setup_firewall (scripted False (Returned [])) (\<lambda>s. 0::int) 12300 12301
          [(AF_INET, ''10.0.0.1''), (10, ''fd00::1''), (AF_INET, ''192.168.1.1'')] AF_INET [] False None
          (start [])) = Inr ()
   \<and> filter is_dns_rule
        (calls_issued (setup_firewall (scripted False (Returned [])) (\<lambda>s. 0::int) 12300 12301
          [(AF_INET, ''10.0.0.1''), (10, ''fd00::1''), (AF_INET, ''192.168.1.1'')] AF_INET [] False None)
          (start []))
      = [Ipt AF_INET ''nat''
           [''-A'', ''sshuttle-12300'', ''-j'', ''REDIRECT'', ''--dest'', ''10.0.0.1/32'',
            ''-p'', ''udp'', ''--dport'', ''53'', ''--to-ports'', ''12301''],
         Ipt AF_INET ''nat''
           [''-A'', ''sshuttle-12300'', ''-j'', ''REDIRECT'', ''--dest'', ''192.168.1.1/32'',
            ''-p'', ''udp'', ''--dport'', ''53'', ''--to-ports'', ''12301'']]"
proof -
  from dns_rules_only_for_matching_family
         [of "scripted False (Returned [])" "\<lambda>s. 0::int" 12300 12301
             "[(AF_INET, ''10.0.0.1''), (10, ''fd00::1''), (AF_INET, ''192.168.1.1'')]" AF_INET "[]"
             False None "start []"] dns_run_ok
  show ?thesis
    by (simp add: chain_name_def str_int_12300 str_int_12301 AF_INET_def)
qed

text \<open>
  C8. When \<^verbatim>\<open>restore_firewall\<close> is called with a valid policy and the chain
  \<^verbatim>\<open>sshuttle-<port>\<close> does not exist, it returns normally, the host's state is
  unchanged, and the only external call is the chain query.
\<close>

theorem teardown_without_chain_is_noop:
  assumes "family = AF_INET" and "\<not> udp"
    and "\<not> query_chain B family ''nat'' (chain_name port) (host w)"
  shows "restore_firewall B port family udp user w =
           (Inr (), w\<lparr>issued := issued w @ [(Ipt_chain_exists family ''nat'' (chain_name port), False)]\<rparr>)
       \<and> host (snd (restore_firewall B port family udp user w)) = host w
       \<and> calls_issued (restore_firewall B port family udp user) w =
           [Ipt_chain_exists family ''nat'' (chain_name port)]"
  using assms by (simp add: restore_firewall_absent calls_issued_def new_events_def)

theorem teardown_without_chain_is_noop_witness:
  "\<not> query_chain (scripted False (Returned [])) AF_INET ''nat'' (chain_name 12300) (host (start [False]))
   \<and> restore_firewall (scripted False (Returned [])) 12300 AF_INET False (Some (Uid 1000)) (start [False])
       = (Inr (), \<lparr>host = [False], issued = [(Ipt_chain_exists AF_INET ''nat'' ''sshuttle-12300'', False)]\<rparr>)"
  using teardown_without_chain_is_noop
          [of AF_INET False "scripted False (Returned [])" 12300 "start [False]" "Some (Uid 1000)"]
  by (simp add: scripted_def start_def chain_name_def str_int_12300)

text \<open>
  C9 (as amended). Every external call \<^verbatim>\<open>setup_firewall\<close> issues after the
  teardown it starts with is as the claim lists them (\<^term>\<open>namespaced_as_stated\<close>): in
  the nat table a create, flush or append on the instance's chain
  \<^verbatim>\<open>sshuttle-<port>\<close>, or an insert at position 1 of
  \<^verbatim>\<open>OUTPUT\<close>/\<^verbatim>\<open>PREROUTING\<close> of a rule that jumps to that chain, and outside
  the nat table only the insert of the Mark rule in the mangle table when a user is set.
  With the calls of the teardown, every call is one of these (\<^term>\<open>namespaced\<close>): the
  above, the deletion of the instance's chain, a delete from
  \<^verbatim>\<open>OUTPUT\<close>/\<^verbatim>\<open>PREROUTING\<close> of a rule that jumps to that chain, or the delete
  of the Mark rule in the mangle table; so the mangle table sees at most two commands,
  and none when no user is set. Two instances with different ports never create, flush,
  append to or delete the same chain.
\<close>

theorem setup_commands_namespaced:
  "list_all (namespaced_as_stated port user)
     (drop (length (calls_issued (restore_firewall B port family udp user) w))
        (calls_issued (setup_firewall B weight port dnsport nslist family subnets udp user) w))
   \<and> list_all (namespaced port user)
     (calls_issued (setup_firewall B weight port dnsport nslist family subnets udp user) w)
   \<and> length (filter (in_table ''mangle'')
        (calls_issued (setup_firewall B weight port dnsport nslist family subnets udp user) w))
     \<le> (if user = None then 0 else 2)
   \<and> (port \<noteq> port' \<longrightarrow>
        set (map touched_chain
               (calls_issued (setup_firewall B weight port dnsport nslist family subnets udp user) w))
        \<inter> set (map touched_chain
               (calls_issued (setup_firewall B' weight' port' dnsport' nslist' family' subnets' udp' user') w'))
        \<subseteq> {None})"
proof (intro conjI impI)
  show "list_all (namespaced_as_stated port user)
     (drop (length (calls_issued (restore_firewall B port family udp user) w))
        (calls_issued (setup_firewall B weight port dnsport nslist family subnets udp user) w))"
    by (rule stated_after_teardown)
  show "list_all (namespaced port user)
     (calls_issued (setup_firewall B weight port dnsport nslist family subnets udp user) w)"
    by (rule namespaced_calls_issued)
  show "length (filter (in_table ''mangle'')
        (calls_issued (setup_firewall B weight port dnsport nslist family subnets udp user) w))
     \<le> (if user = None then 0 else 2)"
    using filter_prefix_length [OF setup_firewall_calls_prefix, of "in_table ''mangle''"
            B weight port dnsport nslist family subnets udp user w]
          mangle_setup_calls [of "query_chain B AF_INET ''nat'' (chain_name port) (host w)"
            weight port dnsport nslist subnets user]
    by simp
next
  assume ne: "port \<noteq> port'"
  show "set (map touched_chain
               (calls_issued (setup_firewall B weight port dnsport nslist family subnets udp user) w))
        \<inter> set (map touched_chain
               (calls_issued (setup_firewall B' weight' port' dnsport' nslist' family' subnets' udp' user') w'))
        \<subseteq> {None}"
  proof
    fix t
    assume "t \<in> set (map touched_chain
               (calls_issued (setup_firewall B weight port dnsport nslist family subnets udp user) w))
        \<inter> set (map touched_chain
               (calls_issued (setup_firewall B' weight' port' dnsport' nslist' family' subnets' udp' user') w'))"
    then obtain c c' where
      c: "c \<in> set (calls_issued (setup_firewall B weight port dnsport nslist family subnets udp user) w)"
        "t = touched_chain c"
      and c': "c' \<in> set (calls_issued (setup_firewall B' weight' port' dnsport' nslist' family' subnets' udp' user') w')"
        "t = touched_chain c'" by auto
    from c(1) namespaced_calls_issued [of port user B weight dnsport nslist family subnets udp w]
    have n: "namespaced port user c" by (simp add: list_all_iff)
    from c'(1) namespaced_calls_issued [of port' user' B' weight' dnsport' nslist' family' subnets' udp' w']
    have n': "namespaced port' user' c'" by (simp add: list_all_iff)
    show "t \<in> {None}"
    proof (cases t)
      case None
      then show ?thesis by simp
    next
      case (Some x)
      from namespaced_touched [OF n] c(2) Some have "x = (''nat'', chain_name port)" by simp
      moreover from namespaced_touched [OF n'] c'(2) Some have "x = (''nat'', chain_name port')" by simp
      ultimately have "chain_name port = chain_name port'" by simp
      from chain_name_inj [OF this] ne show ?thesis by simp
    qed
  qed
qed

text \<open>
  Ports 12300 (a user set, the chain present) and 12301: the chains the two setups touch
  are different.
\<close>

theorem setup_commands_namespaced_witness:
  "(12300::int) \<noteq> 12301
   \<and> list_all (namespaced_as_stated 12300 (Some (Uid 1000)))
       (drop (length (calls_issued (restore_firewall (scripted True (Returned [])) 12300 AF_INET False
                        (Some (Uid 1000))) (start [])))
          (calls_issued (setup_firewall (scripted True (Returned [])) (\<lambda>s. 0::int) 12300 12301
             [(AF_INET, ''10.0.0.1'')] AF_INET [(AF_INET, 8, False, ''10.0.0.0'', 0, 0)] False
             (Some (Uid 1000))) (start [])))
   \<and> list_all (namespaced 12300 (Some (Uid 1000)))
       (calls_issued (setup_firewall (scripted True (Returned [])) (\<lambda>s. 0::int) 12300 12301
          [(AF_INET, ''10.0.0.1'')] AF_INET [(AF_INET, 8, False, ''10.0.0.0'', 0, 0)] False
          (Some (Uid 1000))) (start []))
   \<and> length (filter (in_table ''mangle'')
       (calls_issued (setup_firewall (scripted True (Returned [])) (\<lambda>s. 0::int) 12300 12301
          [(AF_INET, ''10.0.0.1'')] AF_INET [(AF_INET, 8, False, ''10.0.0.0'', 0, 0)] False
          (Some (Uid 1000))) (start []))) \<le> 2
   \<and> set (map touched_chain
         (calls_issued (setup_firewall (scripted True (Returned [])) (\<lambda>s. 0::int) 12300 12301
            [(AF_INET, ''10.0.0.1'')] AF_INET [(AF_INET, 8, False, ''10.0.0.0'', 0, 0)] False
            (Some (Uid 1000))) (start [])))
     \<inter> set (map touched_chain
         (calls_issued (setup_firewall (scripted False (Returned [])) (\<lambda>s. 0::int) 12301 12302
            [] AF_INET [] False None) (start [])))
     \<subseteq> {None}"
  using setup_commands_namespaced
          [where port = 12300 and user = "Some (Uid 1000)" and B = "scripted True (Returned [])"
             and weight = "\<lambda>s. 0::int" and dnsport = 12301 and nslist = "[(AF_INET, ''10.0.0.1'')]"
             and family = AF_INET and subnets = "[(AF_INET, 8, False, ''10.0.0.0'', 0, 0)]"
             and udp = False and w = "start []"
             and port' = 12301 and user' = None and B' = "scripted False (Returned [])"
             and weight' = "\<lambda>s. 0::int" and dnsport' = 12302 and nslist' = "[]"
             and family' = AF_INET and subnets' = "[]" and udp' = False and w' = "start []"]
  by simp

text \<open>
  C9 as stated lists, for the nat table, creates, flushes and appends on the chain and
  inserts at position 1 only. A setup on a host where the chain exists also issues the
  commands of its teardown: here the delete of the entry rule from \<^verbatim>\<open>OUTPUT\<close>.
\<close>

theorem setup_issues_teardown_deletes:
  "Ipt AF_INET ''nat'' [''-D'', ''OUTPUT'', ''-j'', ''sshuttle-12300'']
     \<in> set (calls_issued (setup_firewall (scripted True (Returned [])) (\<lambda>s. 0::int) 12300 12301 []
                AF_INET [] False None) (start []))
   \<and> \<not> namespaced_as_stated 12300 None
         (Ipt AF_INET ''nat'' [''-D'', ''OUTPUT'', ''-j'', ''sshuttle-12300''])"
  by (simp add: setup_existing_chain_calls chain_name_def str_int_12300 jumps_to_def)

text \<open>
  C10 (as amended). For every port and user, the delete commands a teardown that finds
  the chain constructs for the Mark rule and the \<^verbatim>\<open>OUTPUT\<close>/\<^verbatim>\<open>PREROUTING\<close>
  entry rules are the insert commands of a setup with the same port and user, with the
  flag replaced and the position dropped. Consequently, when the user is set at one of
  the two calls and unset at the other, no delete command of the teardown matches an
  installed entry rule; when a user is set at both, the entry-rule deletes match whoever
  the users are, and the Mark-rule delete matches exactly when the two users are written
  the same.
\<close>

theorem teardown_deletes_mirror_setup_inserts:
  assumes "fst (setup_firewall B weight port dnsport nslist family subnets udp user w) = Inr ()"
    and "query_chain B' family ''nat'' (chain_name port) (host w')"
  shows "(user' = user \<longrightarrow>
            filter is_delete (calls_issued (restore_firewall B' port family udp user') w')
            = map as_delete (filter is_insert
                (calls_issued (setup_firewall B weight port dnsport nslist family subnets udp user) w)))
       \<and> ((user' = None) \<noteq> (user = None) \<longrightarrow>
            set (filter (in_table ''nat'')
                   (filter is_delete (calls_issued (restore_firewall B' port family udp user') w')))
            \<inter> set (map as_delete (filter (in_table ''nat'') (filter is_insert
                (calls_issued (setup_firewall B weight port dnsport nslist family subnets udp user) w))))
            = {})
       \<and> (user' \<noteq> None \<and> user \<noteq> None \<longrightarrow>
            filter (in_table ''nat'')
              (filter is_delete (calls_issued (restore_firewall B' port family udp user') w'))
            = map as_delete (filter (in_table ''nat'') (filter is_insert
                (calls_issued (setup_firewall B weight port dnsport nslist family subnets udp user) w))))
       \<and> (\<forall>u u'. user = Some u \<and> user' = Some u' \<longrightarrow>
            (filter (in_table ''mangle'')
               (filter is_delete (calls_issued (restore_firewall B' port family udp user') w'))
             = map as_delete (filter (in_table ''mangle'') (filter is_insert
                (calls_issued (setup_firewall B weight port dnsport nslist family subnets udp user) w))))
            = (str_user u' = str_user u))"
proof -
  from setup_firewall_valid [OF assms(1)] have v: "family = AF_INET" "udp = False" by simp_all
  have s: "filter is_insert
             (calls_issued (setup_firewall B weight port dnsport nslist family subnets udp user) w)
           = (case user of
                Some u \<Rightarrow> [Ipt family ''mangle'' ([''-I'', ''OUTPUT'', ''1''] @ mark_spec port u)]
              | None \<Rightarrow> [])
             @ [Ipt family ''nat'' ([''-I'', ''OUTPUT'', ''1''] @ entry_spec port user),
                Ipt family ''nat'' ([''-I'', ''PREROUTING'', ''1''] @ entry_spec port user)]"
    unfolding setup_firewall_ok_calls [OF assms(1)] by (rule filter_insert_setup_calls)
  have r: "filter is_delete (calls_issued (restore_firewall B' port family udp user') w')
           = (case user' of
                Some u \<Rightarrow> [Ipt family ''mangle'' ([''-D'', ''OUTPUT''] @ mark_spec port u)]
              | None \<Rightarrow> [])
             @ [Ipt family ''nat'' ([''-D'', ''OUTPUT''] @ entry_spec port user'),
                Ipt family ''nat'' ([''-D'', ''PREROUTING''] @ entry_spec port user')]"
    using assms(2) unfolding v by (simp add: restore_calls_present filter_delete_teardown_calls)
  show ?thesis
    unfolding s r
    by (cases user; cases user') (auto simp: entry_spec_def mark_spec_def)
qed

text \<open>
  A setup for user 1000: a teardown for the same user mirrors its inserts, a teardown
  without a user matches none of its entry rules, and a teardown for user 1001 matches
  its entry rules but not its Mark rule.
\<close>

theorem teardown_deletes_mirror_setup_inserts_witness:
  "fst (setup_firewall (scripted False (Returned [])) (\<lambda>s. 0::int) 12300 12301 [] AF_INET [] False
          (Some (Uid 1000)) (start [])) = Inr ()
   \<and> query_chain (scripted True (Returned [])) AF_INET ''nat'' (chain_name 12300) (host (start []))
   \<and> filter is_delete
        (calls_issued (restore_firewall (scripted True (Returned [])) 12300 AF_INET False
           (Some (Uid 1000))) (start []))
     = map as_delete (filter is_insert
        (calls_issued (setup_firewall (scripted False (Returned [])) (\<lambda>s. 0::int) 12300 12301 []
           AF_INET [] False (Some (Uid 1000))) (start [])))
   \<and> set (filter (in_table ''nat'')
        (filter is_delete
           (calls_issued (restore_firewall (scripted True (Returned [])) 12300 AF_INET False None)
              (start []))))
     \<inter> set (map as_delete (filter (in_table ''nat'') (filter is_insert
        (calls_issued (setup_firewall (scripted False (Returned [])) (\<lambda>s. 0::int) 12300 12301 []
           AF_INET [] False (Some (Uid 1000))) (start [])))))
     = {}
   \<and> filter (in_table ''nat'')
        (filter is_delete
           (calls_issued (restore_firewall (scripted True (Returned [])) 12300 AF_INET False
              (Some (Uid 1001))) (start [])))
     = map as_delete (filter (in_table ''nat'') (filter is_insert
        (calls_issued (setup_firewall (scripted False (Returned [])) (\<lambda>s. 0::int) 12300 12301 []
           AF_INET [] False (Some (Uid 1000))) (start []))))
   \<and> filter (in_table ''mangle'')
        (filter is_delete
           (calls_issued (restore_firewall (scripted True (Returned [])) 12300 AF_INET False
              (Some (Uid 1001))) (start [])))
     \<noteq> map as_delete (filter (in_table ''mangle'') (filter is_insert
        (calls_issued (setup_firewall (scripted False (Returned [])) (\<lambda>s. 0::int) 12300 12301 []
           AF_INET [] False (Some (Uid 1000))) (start []))))"
proof -
  have q: "query_chain (scripted True (Returned [])) AF_INET ''nat'' (chain_name 12300) (host (start []))"
    by (simp add: scripted_def)
  have n: "str_int 1001 \<noteq> str_int 1000"
    using str_int_inj [of 1001 1000] by auto
  from teardown_deletes_mirror_setup_inserts [OF users_setup_ok q, where user' = "Some (Uid 1000)"]
       teardown_deletes_mirror_setup_inserts [OF users_setup_ok q, where user' = None]
       teardown_deletes_mirror_setup_inserts [OF users_setup_ok q, where user' = "Some (Uid 1001)"]
       users_setup_ok q n
  show ?thesis by simp
qed

text \<open>
  C10 as stated has every teardown with a different user miss the installed entry rules.
  The entry rules match on the mark, which is the port: set up for user 1000 and torn
  down for user 1001, the entry-rule deletes are exactly the installed entry rules.
\<close>

theorem entry_deletes_match_for_other_user:
  "Uid 1001 \<noteq> Uid 1000
   \<and> filter (in_table ''nat'')
        (filter is_delete
           (calls_issued (restore_firewall (scripted True (Returned [])) 12300 AF_INET False
              (Some (Uid 1001))) (start [])))
     = [Ipt AF_INET ''nat''
          [''-D'', ''OUTPUT'', ''-m'', ''mark'', ''--mark'', ''12300'', ''-j'', ''sshuttle-12300''],
        Ipt AF_INET ''nat''
          [''-D'', ''PREROUTING'', ''-m'', ''mark'', ''--mark'', ''12300'', ''-j'', ''sshuttle-12300'']]
   \<and> map as_delete (filter (in_table ''nat'') (filter is_insert
        (calls_issued (setup_firewall (scripted False (Returned [])) (\<lambda>s. 0::int) 12300 12301 []
           AF_INET [] False (Some (Uid 1000))) (start []))))
     = [Ipt AF_INET ''nat''
          [''-D'', ''OUTPUT'', ''-m'', ''mark'', ''--mark'', ''12300'', ''-j'', ''sshuttle-12300''],
        Ipt AF_INET ''nat''
          [''-D'', ''PREROUTING'', ''-m'', ''mark'', ''--mark'', ''12300'', ''-j'', ''sshuttle-12300'']]"
  by (simp add: calls_issued_def new_events_def setup_firewall_def restore_firewall_def
        sorted_reverse_def str_int_12300 str_int_12301 run_defs)

end
